theory Spec2Isabelle
  imports Complex_Main "HOL-Library.Log_Nat"
begin

section \<open>Python and NumPy primitives\<close>

text \<open>
  The viewer is a Python program over NumPy arrays and Qt widgets. Python integers are
  modelled by \<open>int\<close>. A floating-point number is the real number it stands for, and a
  floating-point operation is the exact operation followed by rounding to the format
  (see below). A call that raises is a value: \<open>Raised e s\<close> carries the exception and
  the state of the widget at the moment it was raised.
\<close>

datatype error = AttributeError | IndexError | ValueError

datatype 'a outcome = Returned 'a | Raised error 'a

fun state_of :: "'a outcome \<Rightarrow> 'a" where
  "state_of (Returned s) = s"
| "state_of (Raised e s) = s"

fun then_do :: "'a outcome \<Rightarrow> ('a \<Rightarrow> 'a outcome) \<Rightarrow> 'a outcome" where
  "then_do (Returned s) f = f s"
| "then_do (Raised e s) f = Raised e s"

text \<open>
  IEEE 754 rounding to nearest, ties to even, for a binary format with \<open>p\<close> significant
  bits and least normal exponent \<open>emin\<close>: the result is the multiple of the unit in the
  last place that is nearest to \<open>x\<close>. \<open>binary_exponent x\<close> is the \<open>e\<close> with
  \<open>2^e \<le> |x| < 2^(e+1)\<close>. Python floats and C doubles are \<open>binary64\<close>; NumPy computes
  in \<open>binary32\<close> on arrays of float32. Overflow to infinity and not-a-number values are
  outside the model.
\<close>

definition round_half_even :: "real \<Rightarrow> int" where
  "round_half_even t =
     (let f = \<lfloor>t\<rfloor>; r = t - real_of_int f
      in if r < 1 / 2 then f
         else if 1 / 2 < r then f + 1
         else if even f then f else f + 1)"

definition binary_exponent :: "real \<Rightarrow> int" where
  "binary_exponent x =
     (if 1 \<le> \<bar>x\<bar> then bitlen \<lfloor>\<bar>x\<bar>\<rfloor> - 1 else - bitlen (\<lceil>1 / \<bar>x\<bar>\<rceil> - 1))"

definition ieee_round :: "int \<Rightarrow> int \<Rightarrow> real \<Rightarrow> real" where
  "ieee_round p emin x =
     (let k = max (binary_exponent x) emin - (p - 1)
      in real_of_int (round_half_even (x / 2 powi k)) * 2 powi k)"

definition binary64 :: "real \<Rightarrow> real" where
  "binary64 = ieee_round 53 (- 1022)"

definition binary32 :: "real \<Rightarrow> real" where
  "binary32 = ieee_round 24 (- 126)"

text \<open>\<open>int(x)\<close> on a float truncates toward zero.\<close>

definition py_int :: "real \<Rightarrow> int" where
  "py_int x = (if 0 \<le> x then \<lfloor>x\<rfloor> else \<lceil>x\<rceil>)"

text \<open>\<open>np.clip(x, lo, hi)\<close> is \<open>minimum(maximum(x, lo), hi)\<close>.\<close>

definition np_clip :: "real \<Rightarrow> real \<Rightarrow> real \<Rightarrow> real" where
  "np_clip x lo hi = min (max x lo) hi"

text \<open>\<open>.astype(np.uint8)\<close> drops the fraction and keeps the low eight bits.\<close>

definition astype_uint8 :: "real \<Rightarrow> int" where
  "astype_uint8 x = py_int x mod 256"

text \<open>\<open>np.min\<close> and \<open>np.max\<close> raise \<open>ValueError\<close> on an array without elements.\<close>

fun np_min :: "real list \<Rightarrow> error + real" where
  "np_min [] = Inl ValueError"
| "np_min (x # xs) = Inr (fold min xs x)"

fun np_max :: "real list \<Rightarrow> error + real" where
  "np_max [] = Inl ValueError"
| "np_max (x # xs) = Inr (fold max xs x)"

section \<open>Intensity normalisation of a slice (\<open>ImageViewer.display_image\<close>, lines 400-413)\<close>

text \<open>
  A 2D slice is the list of its rows. \<open>display_image_pixels fl brightness contrast
  slice_image\<close> is the 8-bit buffer handed to \<open>QImage\<close>, where \<open>fl\<close> is the rounding of the
  format NumPy computes in (\<open>binary32\<close> for a float32 array, \<open>binary64\<close> otherwise; the
  integer differences of an integer array are below \<open>2^16\<close> and exact in it). The slice
  is rescaled to \<open>[0, 255]\<close> when its maximum differs from its minimum and replaced by
  zeros otherwise; then \<open>slice_image * contrast + brightness\<close>, with the two scalars
  converted to the format, is clipped and converted. Every array operation rounds.
\<close>

definition display_image_pixels ::
  "(real \<Rightarrow> real) \<Rightarrow> real \<Rightarrow> real \<Rightarrow> real list list \<Rightarrow> error + int list list" where
  "display_image_pixels fl brightness contrast slice_image =
     (case np_min (concat slice_image) of
        Inl e \<Rightarrow> Inl e
      | Inr min_val \<Rightarrow>
          (case np_max (concat slice_image) of
             Inl e \<Rightarrow> Inl e
           | Inr max_val \<Rightarrow>
               (let normalized =
                      (if max_val \<noteq> min_val
                       then map (map (\<lambda>v. fl (fl (fl (v - min_val) / fl (max_val - min_val)) * 255)))
                              slice_image
                       else map (map (\<lambda>v. 0)) slice_image)
                in Inr (map (map (\<lambda>v. astype_uint8
                                 (np_clip (fl (fl (v * fl contrast) + fl brightness)) 0 255)))
                          normalized))))"

text \<open>
  The quantities the specification names: the minimum and maximum of a slice and the
  linear rescaling of a raw value to \<open>[0, 255]\<close>, as the code evaluates it in the format
  with rounding \<open>fl\<close>. \<open>exact_on fl xs\<close> says that the format holds every number of \<open>xs\<close>.
\<close>

definition slice_min :: "real list list \<Rightarrow> real" where
  "slice_min sl = Min (set (concat sl))"

definition slice_max :: "real list list \<Rightarrow> real" where
  "slice_max sl = Max (set (concat sl))"

definition normalized_value :: "(real \<Rightarrow> real) \<Rightarrow> real list list \<Rightarrow> real \<Rightarrow> real" where
  "normalized_value fl sl v =
     fl (fl (fl (v - slice_min sl) / fl (slice_max sl - slice_min sl)) * 255)"

definition exact_on :: "(real \<Rightarrow> real) \<Rightarrow> real list \<Rightarrow> bool" where
  "exact_on fl xs = list_all (\<lambda>x. fl x = x) xs"

section \<open>NumPy volumes and their slices\<close>

text \<open>
  The decoded volume is a 3-D array: its element type, its shape and the value at each
  index triple. NumPy computes on an array of float32 in \<open>binary32\<close> and on the other
  arrays in \<open>binary64\<close>.
  Indexing one axis with an integer accepts \<open>-n \<le> i < n\<close> (negative indices count from
  the end) and raises \<open>IndexError\<close> otherwise.
\<close>

datatype dtype = uint8 | uint16 | float32 | float64

definition np_round :: "dtype \<Rightarrow> real \<Rightarrow> real" where
  "np_round dt = (case dt of float32 \<Rightarrow> binary32 | float64 \<Rightarrow> binary64
                   | uint8 \<Rightarrow> binary64 | uint16 \<Rightarrow> binary64)"

record ndarray =
  dtype :: dtype
  shape0 :: nat
  shape1 :: nat
  shape2 :: nat
  voxel :: "nat \<Rightarrow> nat \<Rightarrow> nat \<Rightarrow> real"

definition np_index :: "nat \<Rightarrow> int \<Rightarrow> error + nat" where
  "np_index n i =
     (if 0 \<le> i \<and> i < int n then Inr (nat i)
      else if - int n \<le> i \<and> i < 0 then Inr (nat (int n + i))
      else Inl IndexError)"

definition slice_axis0 :: "ndarray \<Rightarrow> nat \<Rightarrow> real list list" where
  \<comment> \<open>\<open>image_array[k, :, :]\<close>\<close>
  "slice_axis0 a k = map (\<lambda>j. map (\<lambda>i. voxel a k j i) [0..<shape2 a]) [0..<shape1 a]"

definition slice_axis1 :: "ndarray \<Rightarrow> nat \<Rightarrow> real list list" where
  \<comment> \<open>\<open>image_array[:, j, :]\<close>\<close>
  "slice_axis1 a j = map (\<lambda>k. map (\<lambda>i. voxel a k j i) [0..<shape2 a]) [0..<shape0 a]"

definition slice_axis2 :: "ndarray \<Rightarrow> nat \<Rightarrow> real list list" where
  \<comment> \<open>\<open>image_array[:, :, i]\<close>\<close>
  "slice_axis2 a i = map (\<lambda>k. map (\<lambda>j. voxel a k j i) [0..<shape1 a]) [0..<shape0 a]"

definition flipud_fliplr :: "real list list \<Rightarrow> real list list" where
  \<comment> \<open>\<open>np.flipud(np.fliplr(slice_image))\<close>\<close>
  "flipud_fliplr sl = rev (map rev sl)"

definition voxels :: "ndarray \<Rightarrow> real list" where
  \<comment> \<open>all elements of the array, as \<open>image_array.min()\<close> and \<open>.max()\<close> range over them\<close>
  "voxels a = concat (map (\<lambda>k. concat (slice_axis0 a k)) [0..<shape0 a])"

section \<open>Qt widgets\<close>

text \<open>
  \<open>QSlider\<close>: a range and a value. \<open>setValue\<close> bounds the value to the range;
  \<open>setMaximum max\<close> is \<open>setRange (min minimum max) max\<close>, which bounds the value again.
  A new slider has range \<open>0..99\<close> and value \<open>0\<close>.
\<close>

record slider =
  minimum :: int
  maximum :: int
  slider_value :: int

definition setValue :: "int \<Rightarrow> slider \<Rightarrow> slider" where
  "setValue v sl = sl\<lparr>slider_value := max (minimum sl) (min (maximum sl) v)\<rparr>"

definition setRange :: "int \<Rightarrow> int \<Rightarrow> slider \<Rightarrow> slider" where
  "setRange lo hi sl =
     setValue (slider_value sl) (sl\<lparr>minimum := lo, maximum := max lo hi\<rparr>)"

definition setMaximum :: "int \<Rightarrow> slider \<Rightarrow> slider" where
  "setMaximum hi sl = setRange (min (minimum sl) hi) hi sl"

definition QSlider :: slider where
  "QSlider = \<lparr>minimum = 0, maximum = 99, slider_value = 0\<rparr>"

text \<open>
  A size is \<open>(width, height)\<close>; a pixmap is modelled by its size, the null pixmap by a
  size with a non-positive side. \<open>QSize * factor\<close> rounds both sides with \<open>qRound\<close>.
  \<open>QSize.scaled\<close> with \<open>Qt.KeepAspectRatio\<close> is the largest size of the same aspect
  ratio inside the target, in integer arithmetic (its operands are positive where it is
  called on a pixmap that is not null). \<open>QPixmap.scaled\<close> returns the null pixmap for
  a null pixmap or an empty target and keeps each side at least 1 otherwise.
\<close>

type_synonym qsize = "int \<times> int"

definition qRound :: "real \<Rightarrow> int" where
  "qRound d =
     (if 0 \<le> d then py_int (d + 0.5)
      else py_int (d - real_of_int (py_int (d - 1)) + 0.5) + py_int (d - 1))"

definition qsize_times :: "qsize \<Rightarrow> real \<Rightarrow> qsize" where
  "qsize_times sz c = (qRound (real_of_int (fst sz) * c), qRound (real_of_int (snd sz) * c))"

definition qsize_scaled :: "qsize \<Rightarrow> qsize \<Rightarrow> qsize" where
  "qsize_scaled sz s =
     (if fst sz = 0 \<or> snd sz = 0 then s
      else (let rw = snd s * fst sz div snd sz
            in if rw \<le> fst s then (rw, snd s)
               else (fst s, fst s * snd sz div fst sz)))"

definition pixmap_scaled :: "qsize \<Rightarrow> qsize \<Rightarrow> qsize" where
  "pixmap_scaled pm s =
     (if fst pm \<le> 0 \<or> snd pm \<le> 0 then (0, 0)
      else if fst s \<le> 0 \<or> snd s \<le> 0 then (0, 0)
      else (let newSize = qsize_scaled pm s
            in (max (fst newSize) 1, max (snd newSize) 1)))"

text \<open>
  \<open>QLabel\<close>: the size the layout gave it and the pixmap it shows (\<open>None\<close> until
  \<open>setPixmap\<close> is called). \<open>rect().contains(p)\<close> holds for \<open>0 \<le> x \<le> width - 1\<close> and
  \<open>0 \<le> y \<le> height - 1\<close>.
\<close>

record qlabel =
  lbl_width :: int
  lbl_height :: int
  lbl_pixmap :: "qsize option"

definition lbl_size :: "qlabel \<Rightarrow> qsize" where
  "lbl_size l = (lbl_width l, lbl_height l)"

definition rect_contains :: "qlabel \<Rightarrow> int \<times> int \<Rightarrow> bool" where
  "rect_contains l p =
     (0 \<le> fst p \<and> fst p \<le> lbl_width l - 1 \<and> 0 \<le> snd p \<and> snd p \<le> lbl_height l - 1)"

definition setPixmap :: "qsize \<Rightarrow> qlabel \<Rightarrow> qlabel" where
  "setPixmap pm l = l\<lparr>lbl_pixmap := Some pm\<rparr>"

section \<open>The 2D viewer (\<open>ImageViewer\<close>)\<close>

text \<open>
  The dictionaries \<open>brightness\<close> and \<open>contrast\<close> have the keys \<open>"xy"\<close>, \<open>"xz"\<close>,
  \<open>"zy"\<close>, and the callbacks are connected with exactly these keys. The views of
  \<open>update_slice\<close>, \<open>get_slider\<close> and \<open>toggle_play\<close> are the strings \<open>"xy"\<close>,
  \<open>"xz"\<close>, \<open>"yz"\<close> as in the source.
\<close>

datatype plane = XY | XZ | ZY

record viewer =
  brightness :: "plane \<Rightarrow> real"
  contrast :: "plane \<Rightarrow> real"
  image_array :: "ndarray option"
  current_crosshair :: "(int \<times> int) option"
  zoom_level_xy :: real
  zoom_level_xz :: real
  zoom_level_yz :: real
  playing_state :: "string \<Rightarrow> bool"
  xy_slider :: slider
  xz_slider :: slider
  zy_slider :: slider
  xy_label :: qlabel
  xz_label :: qlabel
  zy_label :: qlabel

text \<open>
  The state after \<open>__init__\<close>; the three labels get the size \<open>(w, h)\<close> from the layout.
\<close>

definition ImageViewer :: "int \<Rightarrow> int \<Rightarrow> viewer" where
  "ImageViewer w h =
     \<lparr>brightness = (\<lambda>p. 0), contrast = (\<lambda>p. 1), image_array = None,
      current_crosshair = None,
      zoom_level_xy = 0.4, zoom_level_xz = 0.4, zoom_level_yz = 0.4,
      playing_state = (\<lambda>v. False),
      xy_slider = QSlider, xz_slider = QSlider, zy_slider = QSlider,
      xy_label = \<lparr>lbl_width = w, lbl_height = h, lbl_pixmap = None\<rparr>,
      xz_label = \<lparr>lbl_width = w, lbl_height = h, lbl_pixmap = None\<rparr>,
      zy_label = \<lparr>lbl_width = w, lbl_height = h, lbl_pixmap = None\<rparr>\<rparr>"

text \<open>
  \<open>display_image\<close> (lines 399-457), for a slice of an array of element type \<open>dt\<close>: the
  8-bit buffer of the slice, and the label with
  the pixmap of the slice scaled by the zoom factor. The crosshair is painted on the
  pixmap and changes no field of the viewer; painting is outside the model.
\<close>

definition display_image ::
  "viewer \<Rightarrow> dtype \<Rightarrow> real list list \<Rightarrow> qlabel \<Rightarrow> plane \<Rightarrow> real
     \<Rightarrow> error + (int list list \<times> qlabel)" where
  "display_image s dt slice_image label pl zoom_factor =
     (case display_image_pixels (np_round dt) (brightness s pl) (contrast s pl) slice_image of
        Inl e \<Rightarrow> Inl e
      | Inr px \<Rightarrow>
          (let height = int (length slice_image);
               width = int (length (hd slice_image));
               pixmap = (width, height);
               scaled_pixmap = pixmap_scaled pixmap (qsize_times pixmap zoom_factor)
           in Inr (px, setPixmap scaled_pixmap label)))"

definition update_xy_image :: "viewer \<Rightarrow> int \<Rightarrow> viewer outcome" where
  "update_xy_image s slice_idx =
     (case image_array s of
        None \<Rightarrow> Returned s
      | Some a \<Rightarrow>
          (case np_index (shape0 a) slice_idx of
             Inl e \<Rightarrow> Raised e s
           | Inr k \<Rightarrow>
               (case display_image s (dtype a) (flipud_fliplr (slice_axis0 a k)) (xy_label s) XY (zoom_level_xy s) of
                  Inl e \<Rightarrow> Raised e s
                | Inr r \<Rightarrow> Returned (s\<lparr>xy_label := snd r\<rparr>))))"

definition update_xz_image :: "viewer \<Rightarrow> int \<Rightarrow> viewer outcome" where
  "update_xz_image s slice_idx =
     (case image_array s of
        None \<Rightarrow> Returned s
      | Some a \<Rightarrow>
          (case np_index (shape1 a) slice_idx of
             Inl e \<Rightarrow> Raised e s
           | Inr k \<Rightarrow>
               (case display_image s (dtype a) (flipud_fliplr (slice_axis1 a k)) (xz_label s) XZ (zoom_level_xz s) of
                  Inl e \<Rightarrow> Raised e s
                | Inr r \<Rightarrow> Returned (s\<lparr>xz_label := snd r\<rparr>))))"

definition update_zy_image :: "viewer \<Rightarrow> int \<Rightarrow> viewer outcome" where
  "update_zy_image s slice_idx =
     (case image_array s of
        None \<Rightarrow> Returned s
      | Some a \<Rightarrow>
          (case np_index (shape2 a) slice_idx of
             Inl e \<Rightarrow> Raised e s
           | Inr k \<Rightarrow>
               (case display_image s (dtype a) (flipud_fliplr (slice_axis2 a k)) (zy_label s) ZY (zoom_level_yz s) of
                  Inl e \<Rightarrow> Raised e s
                | Inr r \<Rightarrow> Returned (s\<lparr>zy_label := snd r\<rparr>))))"

definition update_all_images :: "viewer \<Rightarrow> viewer outcome" where
  "update_all_images s =
     (let xy_idx = slider_value (xy_slider s);
          xz_idx = slider_value (xz_slider s);
          zy_idx = slider_value (zy_slider s)
      in then_do (update_xy_image s xy_idx) (\<lambda>s1.
         then_do (update_xz_image s1 xz_idx) (\<lambda>s2.
         update_zy_image s2 zy_idx)))"

text \<open>The slider callbacks (lines 292-298).\<close>

definition update_brightness :: "int \<Rightarrow> plane \<Rightarrow> viewer \<Rightarrow> viewer outcome" where
  "update_brightness v view s =
     update_all_images (s\<lparr>contrast := (contrast s)(view := real_of_int v / 100)\<rparr>)"

definition update_contrast :: "int \<Rightarrow> plane \<Rightarrow> viewer \<Rightarrow> viewer outcome" where
  "update_contrast v view s =
     update_all_images (s\<lparr>brightness := (brightness s)(view := real_of_int v)\<rparr>)"

text \<open>Playback (lines 100-126 and 300-338).\<close>

definition get_slider :: "string \<Rightarrow> viewer \<Rightarrow> slider" where
  "get_slider view s =
     (if view = ''xy'' then xy_slider s
      else if view = ''xz'' then xz_slider s
      else zy_slider s)"

definition put_slider :: "string \<Rightarrow> slider \<Rightarrow> viewer \<Rightarrow> viewer" where
  \<comment> \<open>the slider object that \<open>get_slider\<close> returned is updated in place\<close>
  "put_slider view sl s =
     (if view = ''xy'' then s\<lparr>xy_slider := sl\<rparr>
      else if view = ''xz'' then s\<lparr>xz_slider := sl\<rparr>
      else s\<lparr>zy_slider := sl\<rparr>)"

definition update_slice :: "string \<Rightarrow> viewer \<Rightarrow> viewer outcome" where
  "update_slice view s =
     (let xy_idx = slider_value (xy_slider s);
          xz_idx = slider_value (xz_slider s);
          zy_idx = slider_value (zy_slider s)
      in then_do (update_xy_image s xy_idx) (\<lambda>s1.
         then_do (update_xz_image s1 xz_idx) (\<lambda>s2.
         then_do (update_zy_image s2 zy_idx) (\<lambda>s3.
           (let slider = get_slider view s3;
                current_value = slider_value slider
            in if current_value < maximum slider - 1
               then Returned (put_slider view (setValue (current_value + 1) slider) s3)
               else Returned (put_slider view (setValue 0 slider) s3))))))"

definition toggle_play :: "string \<Rightarrow> viewer \<Rightarrow> viewer" where
  "toggle_play view s =
     (if view = ''xy'' \<or> view = ''xz'' \<or> view = ''yz''
      then s\<lparr>playing_state := (playing_state s)(view := \<not> playing_state s view)\<rparr>
      else s)"

text \<open>Loading a volume (lines 340-358).\<close>

definition load_image :: "ndarray \<Rightarrow> viewer \<Rightarrow> viewer outcome" where
  "load_image arr s =
     (let max_axial = int (shape0 arr) - 1;
          max_sagittal = int (shape1 arr) - 1;
          max_coronal = int (shape2 arr) - 1;
          s1 = s\<lparr>image_array := Some arr\<rparr>;
          s2 = s1\<lparr>xy_slider := setMaximum max_axial (xy_slider s1)\<rparr>;
          s3 = s2\<lparr>xz_slider := setMaximum max_sagittal (xz_slider s2)\<rparr>;
          s4 = s3\<lparr>zy_slider := setMaximum max_coronal (zy_slider s3)\<rparr>;
          s5 = s4\<lparr>xy_slider := setValue (max_axial div 2) (xy_slider s4)\<rparr>;
          s6 = s5\<lparr>xz_slider := setValue (max_sagittal div 2) (xz_slider s5)\<rparr>;
          s7 = s6\<lparr>zy_slider := setValue (max_coronal div 2) (zy_slider s6)\<rparr>;
          s8 = s7\<lparr>current_crosshair := None\<rparr>
      in update_all_images s8)"

text \<open>
  The click handlers (lines 492-617). Each reads \<open>self.image_array.shape\<close> first, which
  raises \<open>AttributeError\<close> while \<open>image_array\<close> is \<open>None\<close>. The image indices are
  computed in Python floats: the quotient of the two integers is rounded, the extent is
  converted to a float, and their product is rounded before \<open>int\<close> truncates it.
\<close>

definition mouse_press_event_xy :: "viewer \<Rightarrow> int \<times> int \<Rightarrow> viewer outcome" where
  "mouse_press_event_xy s pos =
     (case image_array s of
        None \<Rightarrow> Raised AttributeError s
      | Some a \<Rightarrow>
          (let max_coronal = int (shape2 a) - 1;
               max_sagittal = int (shape1 a) - 1
           in if rect_contains (xy_label s) pos \<and> image_array s \<noteq> None then
                (case lbl_pixmap (xy_label s) of
                   None \<Rightarrow> Returned s
                 | Some current_pixmap \<Rightarrow>
                     (let scaled_pixmap = pixmap_scaled current_pixmap (lbl_size (xy_label s));
                          scaled_width = fst scaled_pixmap;
                          scaled_height = snd scaled_pixmap;
                          offset_x = (lbl_width (xy_label s) - scaled_width) div 2;
                          offset_y = (lbl_height (xy_label s) - scaled_height) div 2;
                          x = fst pos - offset_x;
                          y = snd pos - offset_y
                      in if 0 \<le> x \<and> x < scaled_width \<and> 0 \<le> y \<and> y < scaled_height then
                           (let image_x = py_int (binary64 (binary64 (real_of_int x / real_of_int scaled_width) * binary64 (real (shape2 a))));
                                image_y = py_int (binary64 (binary64 (real_of_int y / real_of_int scaled_height) * binary64 (real (shape1 a))));
                                s1 = s\<lparr>xz_slider := setValue (max_sagittal - image_y) (xz_slider s)\<rparr>;
                                s2 = s1\<lparr>zy_slider := setValue (max_coronal - image_x) (zy_slider s1)\<rparr>;
                                s3 = s2\<lparr>current_crosshair := Some (x + offset_x, y + offset_y)\<rparr>
                            in update_all_images s3)
                         else Returned s))
              else Returned s))"

definition mouse_press_event_zy :: "viewer \<Rightarrow> int \<times> int \<Rightarrow> viewer outcome" where
  "mouse_press_event_zy s pos =
     (case image_array s of
        None \<Rightarrow> Raised AttributeError s
      | Some a \<Rightarrow>
          (let max_axial = int (shape0 a) - 1;
               max_sagittal = int (shape1 a) - 1
           in if rect_contains (zy_label s) pos \<and> image_array s \<noteq> None then
                (case lbl_pixmap (zy_label s) of
                   None \<Rightarrow> Returned s
                 | Some current_pixmap \<Rightarrow>
                     (let scaled_pixmap = pixmap_scaled current_pixmap (lbl_size (zy_label s));
                          scaled_width = fst scaled_pixmap;
                          scaled_height = snd scaled_pixmap;
                          offset_x = (lbl_width (zy_label s) - scaled_width) div 2;
                          offset_y = (lbl_height (zy_label s) - scaled_height) div 2;
                          x = fst pos - offset_x;
                          y = snd pos - offset_y
                      in if 0 \<le> x \<and> x < scaled_width \<and> 0 \<le> y \<and> y < scaled_height then
                           (let image_x = py_int (binary64 (binary64 (real_of_int x / real_of_int scaled_width) * binary64 (real (shape1 a))));
                                image_y = py_int (binary64 (binary64 (real_of_int y / real_of_int scaled_height) * binary64 (real (shape0 a))));
                                s1 = s\<lparr>xy_slider := setValue (max_axial - image_y) (xy_slider s)\<rparr>;
                                s2 = s1\<lparr>xz_slider := setValue (max_sagittal - image_x) (xz_slider s1)\<rparr>;
                                s3 = s2\<lparr>current_crosshair := Some (x + offset_x, y + offset_y)\<rparr>
                            in update_all_images s3)
                         else Returned s))
              else Returned s))"

definition mouse_press_event_xz :: "viewer \<Rightarrow> int \<times> int \<Rightarrow> viewer outcome" where
  "mouse_press_event_xz s pos =
     (case image_array s of
        None \<Rightarrow> Raised AttributeError s
      | Some a \<Rightarrow>
          (let max_axial = int (shape0 a) - 1;
               max_coronal = int (shape2 a) - 1
           in if rect_contains (xz_label s) pos \<and> image_array s \<noteq> None then
                (case lbl_pixmap (xz_label s) of
                   None \<Rightarrow> Returned s
                 | Some current_pixmap \<Rightarrow>
                     (let scaled_pixmap = pixmap_scaled current_pixmap (lbl_size (xz_label s));
                          scaled_width = fst scaled_pixmap;
                          scaled_height = snd scaled_pixmap;
                          offset_x = (lbl_width (xz_label s) - scaled_width) div 2;
                          offset_y = (lbl_height (xz_label s) - scaled_height) div 2;
                          x = fst pos - offset_x;
                          y = snd pos - offset_y
                      in if 0 \<le> x \<and> x < scaled_width \<and> 0 \<le> y \<and> y < scaled_height then
                           (let image_x = py_int (binary64 (binary64 (real_of_int x / real_of_int scaled_width) * binary64 (real (shape2 a))));
                                image_y = py_int (binary64 (binary64 (real_of_int y / real_of_int scaled_height) * binary64 (real (shape0 a))));
                                s1 = s\<lparr>xy_slider := setValue (max_axial - image_y) (xy_slider s)\<rparr>;
                                s2 = s1\<lparr>zy_slider := setValue (max_coronal - image_x) (zy_slider s1)\<rparr>;
                                s3 = s2\<lparr>current_crosshair := Some (x + offset_x, y + offset_y)\<rparr>
                            in update_all_images s3)
                         else Returned s))
              else Returned s))"

text \<open>
  Qt delivers a click on a label to the handler installed on it (lines 136, 145, 154).
\<close>

fun mousePressEvent :: "plane \<Rightarrow> viewer \<Rightarrow> int \<times> int \<Rightarrow> viewer outcome" where
  "mousePressEvent XY s pos = mouse_press_event_xy s pos"
| "mousePressEvent XZ s pos = mouse_press_event_xz s pos"
| "mousePressEvent ZY s pos = mouse_press_event_zy s pos"

fun label_of :: "plane \<Rightarrow> viewer \<Rightarrow> qlabel" where
  "label_of XY s = xy_label s"
| "label_of XZ s = xz_label s"
| "label_of ZY s = zy_label s"

section \<open>The 3D renderer (\<open>VolumeRenderer.initialize_transfer_functions\<close>, lines 722-742)\<close>

text \<open>
  A transfer function object of the rendering library is modelled by two lists: the
  control points handed to it since it was last emptied, in the order of the calls
  (\<open>emitted\<close>), and the nodes it holds (\<open>nodes\<close>). Adding a point first removes the
  node at the same scalar position, if there is one, then appends the new node and sorts
  the nodes by position (\<open>RemovePoint\<close>, \<open>push_back\<close> and \<open>SortAndUpdateRange\<close> of
  \<open>vtkPiecewiseFunction::AddPoint\<close> and \<open>vtkColorTransferFunction::AddRGBPoint\<close>).
\<close>

record 'v transfer_function =
  emitted :: "(real \<times> 'v) list"
  nodes :: "(real \<times> 'v) list"

record volume_renderer =
  color_transfer_function :: "(real \<times> real \<times> real) transfer_function"
  opacity_transfer_function :: "real transfer_function"

definition RemoveAllPoints :: "'v transfer_function \<Rightarrow> 'v transfer_function" where
  "RemoveAllPoints f = \<lparr>emitted = [], nodes = []\<rparr>"

fun RemovePoint :: "real \<Rightarrow> (real \<times> 'v) list \<Rightarrow> (real \<times> 'v) list" where
  "RemovePoint x [] = []"
| "RemovePoint x (n # ns) = (if fst n = x then ns else n # RemovePoint x ns)"

definition add_node :: "real \<Rightarrow> 'v \<Rightarrow> 'v transfer_function \<Rightarrow> 'v transfer_function" where
  "add_node x v f =
     \<lparr>emitted = emitted f @ [(x, v)],
      nodes = sort_key fst (RemovePoint x (nodes f) @ [(x, v)])\<rparr>"

definition AddRGBPoint ::
  "real \<Rightarrow> real \<Rightarrow> real \<Rightarrow> real \<Rightarrow> (real \<times> real \<times> real) transfer_function
     \<Rightarrow> (real \<times> real \<times> real) transfer_function" where
  "AddRGBPoint x r g b f = add_node x (r, g, b) f"

definition AddPoint :: "real \<Rightarrow> real \<Rightarrow> real transfer_function \<Rightarrow> real transfer_function" where
  "AddPoint x y f = add_node x y f"

definition initialize_transfer_functions :: "ndarray \<Rightarrow> volume_renderer \<Rightarrow> error + volume_renderer" where
  "initialize_transfer_functions arr r =
     (let r1 = r\<lparr>color_transfer_function := RemoveAllPoints (color_transfer_function r)\<rparr>;
          r2 = r1\<lparr>opacity_transfer_function := RemoveAllPoints (opacity_transfer_function r1)\<rparr>
      in case np_min (voxels arr) of
           Inl e \<Rightarrow> Inl e
         | Inr min_val \<Rightarrow>
             (case np_max (voxels arr) of
                Inl e \<Rightarrow> Inl e
              | Inr max_val \<Rightarrow>
                  (let c1 = AddRGBPoint min_val 0.0 0.0 0.0 (color_transfer_function r2);
                       c2 = AddRGBPoint (max_val * 0.25) 0.85 0.55 0.3 c1;
                       c3 = AddRGBPoint (max_val * 0.5) 0.95 0.85 0.7 c2;
                       c4 = AddRGBPoint max_val 1.0 1.0 1.0 c3;
                       o1 = AddPoint min_val 0.0 (opacity_transfer_function r2);
                       o2 = AddPoint (max_val * 0.25) 0.1 o1;
                       o3 = AddPoint (max_val * 0.5) 0.4 o2;
                       o4 = AddPoint max_val 1.0 o3
                   in Inr (r2\<lparr>color_transfer_function := c4, opacity_transfer_function := o4\<rparr>))))"

section \<open>States with a loaded volume\<close>

text \<open>
  After \<open>load_image\<close> each slice slider ranges over the indices of its axis. A volume
  has at least one element along every axis.
\<close>

definition slider_ok :: "nat \<Rightarrow> slider \<Rightarrow> bool" where
  "slider_ok n sl =
     (minimum sl = 0 \<and> maximum sl = int n - 1 \<and> 0 \<le> slider_value sl \<and> slider_value sl \<le> int n - 1)"

definition loaded :: "ndarray \<Rightarrow> viewer \<Rightarrow> bool" where
  "loaded a s =
     (image_array s = Some a \<and> 0 < shape0 a \<and> 0 < shape1 a \<and> 0 < shape2 a \<and>
      slider_ok (shape0 a) (xy_slider s) \<and> slider_ok (shape1 a) (xz_slider s) \<and>
      slider_ok (shape2 a) (zy_slider s))"

text \<open>
  Rendering replaces the pixmap of a label and leaves its geometry alone; a full
  re-render changes the three labels and nothing else.
\<close>

definition same_place :: "qlabel \<Rightarrow> qlabel \<Rightarrow> bool" where
  "same_place l' l = (lbl_width l' = lbl_width l \<and> lbl_height l' = lbl_height l \<and> lbl_pixmap l' \<noteq> None)"

definition relabelled :: "viewer \<Rightarrow> viewer \<Rightarrow> bool" where
  "relabelled s' s =
     (\<exists>l1 l2 l3. s' = s\<lparr>xy_label := l1, xz_label := l2, zy_label := l3\<rparr> \<and>
        same_place l1 (xy_label s) \<and> same_place l2 (xz_label s) \<and> same_place l3 (zy_label s))"

text \<open>
  The pixmap that \<open>display_image\<close> puts on a label for a slice of the given width and
  height, and the viewer after the three views of a loaded volume are rendered.
\<close>

definition zoomed_pixmap :: "nat \<Rightarrow> nat \<Rightarrow> real \<Rightarrow> qsize" where
  "zoomed_pixmap w h z = pixmap_scaled (int w, int h) (qsize_times (int w, int h) z)"

definition rendered :: "ndarray \<Rightarrow> viewer \<Rightarrow> viewer" where
  "rendered a s =
     s\<lparr>xy_label := setPixmap (zoomed_pixmap (shape2 a) (shape1 a) (zoom_level_xy s)) (xy_label s),
       xz_label := setPixmap (zoomed_pixmap (shape2 a) (shape0 a) (zoom_level_xz s)) (xz_label s),
       zy_label := setPixmap (zoomed_pixmap (shape1 a) (shape0 a) (zoom_level_yz s)) (zy_label s)\<rparr>"

section \<open>Example inputs and named quantities\<close>

text \<open>
  The minimum and maximum of a volume, a volume of two voxels, and the renderer as
  \<open>__init__\<close> leaves it (both transfer functions without points).
\<close>

definition volume_min :: "ndarray \<Rightarrow> real" where
  "volume_min a = Min (set (voxels a))"

definition volume_max :: "ndarray \<Rightarrow> real" where
  "volume_max a = Max (set (voxels a))"

definition two_voxel_volume :: "real \<Rightarrow> real \<Rightarrow> ndarray" where
  "two_voxel_volume lo hi =
     \<lparr>dtype = float64, shape0 = 1, shape1 = 1, shape2 = 2,
      voxel = (\<lambda>k j i. if i = 0 then lo else hi)\<rparr>"

definition VolumeRenderer :: volume_renderer where
  "VolumeRenderer =
     \<lparr>color_transfer_function = \<lparr>emitted = [], nodes = []\<rparr>,
      opacity_transfer_function = \<lparr>emitted = [], nodes = []\<rparr>\<rparr>"

text \<open>A volume whose voxel values differ, of any shape.\<close>

definition ramp_volume :: "nat \<Rightarrow> nat \<Rightarrow> nat \<Rightarrow> ndarray" where
  "ramp_volume d0 d1 d2 =
     \<lparr>dtype = uint16, shape0 = d0, shape1 = d1, shape2 = d2,
      voxel = (\<lambda>k j i. real (k + j + i))\<rparr>"

text \<open>The slice sliders keep the minimum 0 they are created with.\<close>

definition slice_sliders_from_zero :: "viewer \<Rightarrow> bool" where
  "slice_sliders_from_zero s =
     (minimum (xy_slider s) = 0 \<and> minimum (xz_slider s) = 0 \<and> minimum (zy_slider s) = 0)"

section \<open>The geometry of a click\<close>

text \<open>
  The quantities of the specification's coordinate mapper for a label \<open>l\<close> that shows the
  pixmap \<open>pm\<close>: the size \<open>(Cw, Ch)\<close> of the pixmap scaled into the label, the centring
  offsets, the region of the label the scaled image covers, and the index a distance
  \<open>d\<close> from the left or top edge of that region maps to on an axis of extent \<open>S\<close>.
  Qt sizes are 32-bit integers and the extents of an array are far below \<open>2^53\<close>
  (\<open>machine_sizes\<close>). The last definitions are the viewers of the examples: a volume
  of shape \<open>(5, 4, 4)\<close>, and one of shape \<open>(100, 100, 100)\<close>, loaded into a viewer whose
  labels are 300 wide and 200 high.
\<close>

definition scaled_size :: "qlabel \<Rightarrow> qsize \<Rightarrow> qsize" where
  "scaled_size l pm = pixmap_scaled pm (lbl_size l)"

definition offset_x :: "qlabel \<Rightarrow> qsize \<Rightarrow> int" where
  "offset_x l pm = (lbl_width l - fst (scaled_size l pm)) div 2"

definition offset_y :: "qlabel \<Rightarrow> qsize \<Rightarrow> int" where
  "offset_y l pm = (lbl_height l - snd (scaled_size l pm)) div 2"

definition in_scaled_image :: "qlabel \<Rightarrow> qsize \<Rightarrow> int \<times> int \<Rightarrow> bool" where
  "in_scaled_image l pm pos =
     (offset_x l pm \<le> fst pos \<and> fst pos < offset_x l pm + fst (scaled_size l pm) \<and>
      offset_y l pm \<le> snd pos \<and> snd pos < offset_y l pm + snd (scaled_size l pm))"

definition mapped_index :: "int \<Rightarrow> int \<Rightarrow> nat \<Rightarrow> int" where
  "mapped_index d C S =
     \<lfloor>binary64 (binary64 (real_of_int d / real_of_int C) * binary64 (real S))\<rfloor>"

definition machine_sizes :: "ndarray \<Rightarrow> qlabel \<Rightarrow> bool" where
  "machine_sizes a l =
     (lbl_width l \<le> 2 ^ 31 \<and> lbl_height l \<le> 2 ^ 31 \<and>
      shape0 a < 2 ^ 53 \<and> shape1 a < 2 ^ 53 \<and> shape2 a < 2 ^ 53)"

definition example_loaded_100 :: viewer where
  "example_loaded_100 = state_of (load_image (ramp_volume 100 100 100) (ImageViewer 300 200))"

definition example_loaded :: viewer where
  "example_loaded = state_of (load_image (ramp_volume 5 4 4) (ImageViewer 300 200))"

section \<open>Facts about the primitives\<close>

lemma round_half_even_error: "\<bar>real_of_int (round_half_even t) - t\<bar> \<le> 1 / 2"
  unfolding round_half_even_def Let_def by (auto; linarith)

lemma round_half_even_of_int [simp]: "round_half_even (real_of_int m) = m"
  by (simp add: round_half_even_def)

lemma round_half_even_zero [simp]: "round_half_even 0 = 0"
  by (simp add: round_half_even_def)

lemma round_half_even_nonneg: "0 \<le> t \<Longrightarrow> 0 \<le> round_half_even t"
  unfolding round_half_even_def Let_def by (auto; linarith)

lemma binary_exponent_bounds:
  assumes "x \<noteq> 0"
  shows "2 powi binary_exponent x \<le> \<bar>x\<bar>" and "\<bar>x\<bar> < 2 powi (binary_exponent x + 1)"
proof -
  have "2 powi binary_exponent x \<le> \<bar>x\<bar> \<and> \<bar>x\<bar> < 2 powi (binary_exponent x + 1)"
  proof (cases "1 \<le> \<bar>x\<bar>")
    case True
    define n where "n = \<lfloor>\<bar>x\<bar>\<rfloor>"
    have n: "0 < n" using True by (simp add: n_def)
    have e: "binary_exponent x = bitlen n - 1"
      using True by (simp add: binary_exponent_def n_def)
    have b1: "1 \<le> bitlen n" using n by (simp add: bitlen_alt_def)
    from bitlen_bounds[OF n] have lo: "2 ^ nat (bitlen n - 1) \<le> n" and hi: "n < 2 ^ nat (bitlen n)"
      by simp_all
    have "real_of_int (2 ^ nat (bitlen n - 1)) \<le> real_of_int n"
      using lo by (simp only: of_int_le_iff)
    also have "\<dots> \<le> \<bar>x\<bar>" by (simp add: n_def)
    finally have 1: "2 powi (bitlen n - 1) \<le> \<bar>x\<bar>"
      using b1 by (simp add: power_int_def)
    have "n + 1 \<le> 2 ^ nat (bitlen n)" using hi by simp
    then have "real_of_int (n + 1) \<le> real_of_int (2 ^ nat (bitlen n))"
      by (simp only: of_int_le_iff)
    moreover have "\<bar>x\<bar> < real_of_int (n + 1)" by (simp add: n_def)
    ultimately have 2: "\<bar>x\<bar> < 2 powi (bitlen n - 1 + 1)"
      using b1 by (simp add: power_int_def)
    show ?thesis using 1 2 by (simp add: e)
  next
    case False
    define y where "y = 1 / \<bar>x\<bar>"
    have xpos: "0 < \<bar>x\<bar>" using assms by simp
    have y1: "1 < y" using False xpos by (simp add: y_def)
    define m where "m = \<lceil>y\<rceil> - 1"
    have m: "0 < m" using y1 by (simp add: m_def) (linarith?)
    have e: "binary_exponent x = - bitlen m"
      using False by (simp add: binary_exponent_def m_def y_def)
    have b1: "1 \<le> bitlen m" using m by (simp add: bitlen_alt_def)
    from bitlen_bounds[OF m] have lo: "2 ^ nat (bitlen m - 1) \<le> m" and hi: "m < 2 ^ nat (bitlen m)"
      by simp_all
    have "y \<le> real_of_int (m + 1)" by (simp add: m_def)
    also have "m + 1 \<le> 2 ^ nat (bitlen m)" using hi by simp
    then have "real_of_int (m + 1) \<le> real_of_int (2 ^ nat (bitlen m))"
      by (simp only: of_int_le_iff)
    finally have yle: "y \<le> 2 ^ nat (bitlen m)" by simp
    have "real_of_int (2 ^ nat (bitlen m - 1)) \<le> real_of_int m"
      using lo by (simp only: of_int_le_iff)
    also have "real_of_int m < y" by (simp add: m_def) (linarith?)
    finally have ygt: "2 ^ nat (bitlen m - 1) < y" by simp
    have 1: "2 powi (- bitlen m) \<le> \<bar>x\<bar>"
    proof -
      have "1 / 2 ^ nat (bitlen m) \<le> 1 / y"
        using yle y1 by (intro divide_left_mono) simp_all
      then show ?thesis
        using b1 xpos by (simp add: power_int_def y_def field_simps)
    qed
    have 2: "\<bar>x\<bar> < 2 powi (- bitlen m + 1)"
    proof -
      have "1 / y < 1 / 2 ^ nat (bitlen m - 1)"
        using ygt y1 by (intro divide_strict_left_mono) simp_all
      moreover have "(2::real) powi (- bitlen m + 1) = 1 / 2 ^ nat (bitlen m - 1)"
      proof -
        have "(2::real) powi (- (bitlen m - 1)) = inverse (2 powi (bitlen m - 1))"
          by (rule power_int_minus)
        moreover have "(2::real) powi (bitlen m - 1) = 2 ^ nat (bitlen m - 1)"
          using b1 by (simp add: power_int_def)
        moreover have "- bitlen m + 1 = - (bitlen m - 1)" by simp
        ultimately show ?thesis by (simp only: inverse_eq_divide)
      qed
      ultimately show ?thesis using xpos by (simp add: y_def)
    qed
    show ?thesis using 1 2 by (simp add: e)
  qed
  then show "2 powi binary_exponent x \<le> \<bar>x\<bar>" and "\<bar>x\<bar> < 2 powi (binary_exponent x + 1)"
    by simp_all
qed

lemma power_int_2_less_imp: "(2::real) powi a < 2 powi b \<Longrightarrow> a < b"
  using power_int_increasing[of b a "2::real"] by (cases "a < b") simp_all

lemma ieee_round_nonneg: "0 \<le> x \<Longrightarrow> 0 \<le> ieee_round p emin x"
  unfolding ieee_round_def Let_def
  by (intro mult_nonneg_nonneg) (simp_all add: round_half_even_nonneg)

lemma ieee_round_zero [simp]: "ieee_round p emin 0 = 0"
  by (simp add: ieee_round_def)

lemma ieee_round_error:
  assumes "2 powi emin \<le> \<bar>x\<bar>"
  shows "\<bar>ieee_round p emin x - x\<bar> \<le> \<bar>x\<bar> * 2 powi (- p)"
proof -
  have x0: "x \<noteq> 0"
  proof
    assume "x = 0"
    with assms have "(2::real) powi emin \<le> 0" by simp
    moreover have "0 < (2::real) powi emin" by simp
    ultimately show False by linarith
  qed
  define e where "e = binary_exponent x"
  note eb = binary_exponent_bounds[OF x0, folded e_def]
  have "(2::real) powi emin < 2 powi (e + 1)"
    using assms eb(2) by linarith
  then have "emin < e + 1" by (rule power_int_2_less_imp)
  then have mx: "max e emin = e" by simp
  define q :: real where "q = 2 powi (e - (p - 1))"
  have q0: "0 < q" by (simp add: q_def)
  have fl: "ieee_round p emin x = real_of_int (round_half_even (x / q)) * q"
    by (simp add: ieee_round_def Let_def mx q_def flip: e_def)
  have "ieee_round p emin x - x = (real_of_int (round_half_even (x / q)) - x / q) * q"
    using q0 by (simp add: fl field_simps)
  then have "\<bar>ieee_round p emin x - x\<bar> = \<bar>real_of_int (round_half_even (x / q)) - x / q\<bar> * q"
    using q0 by (simp add: abs_mult)
  also have "\<dots> \<le> 1 / 2 * q"
    using q0 round_half_even_error[of "x / q"] by (intro mult_right_mono) simp_all
  also have "1 / 2 * q = 2 powi e * 2 powi (- p)"
  proof -
    have "e - (p - 1) = (e + (- p)) + 1" by simp
    then have "q = 2 powi ((e + (- p)) + 1)" by (simp only: q_def)
    also have "\<dots> = 2 powi (e + (- p)) * 2 powi 1"
      by (rule power_int_add) simp
    also have "(2::real) powi (e + (- p)) = 2 powi e * 2 powi (- p)"
      by (rule power_int_add) simp
    finally show ?thesis by simp
  qed
  also have "\<dots> \<le> \<bar>x\<bar> * 2 powi (- p)"
    using eb(1) by (intro mult_right_mono) simp_all
  finally show ?thesis .
qed

lemma ieee_round_of_int:
  assumes "\<bar>n\<bar> < 2 ^ nat p" and "emin \<le> 0" and "0 < p"
  shows "ieee_round p emin (real_of_int n) = real_of_int n"
proof (cases "n = 0")
  case True
  then show ?thesis by simp
next
  case False
  define e where "e = binary_exponent (real_of_int n)"
  have x0: "real_of_int n \<noteq> 0" using False by simp
  note eb = binary_exponent_bounds[OF x0, folded e_def]
  have "\<bar>real_of_int n\<bar> < 2 ^ nat p"
    using assms(1) by (metis of_int_abs of_int_less_iff of_int_numeral of_int_power)
  then have "\<bar>real_of_int n\<bar> < 2 powi p"
    using assms(3) by (simp add: power_int_def)
  with eb(1) have "(2::real) powi e < 2 powi p" by linarith
  then have ep: "e < p" by (rule power_int_2_less_imp)
  have "1 \<le> \<bar>n\<bar>" using False by simp
  then have "real_of_int 1 \<le> real_of_int \<bar>n\<bar>" by (simp only: of_int_le_iff)
  then have "1 \<le> \<bar>real_of_int n\<bar>" by simp
  with eb(2) have "(2::real) powi 0 < 2 powi (e + 1)" by simp
  then have e0: "0 \<le> e" using power_int_2_less_imp[of 0 "e + 1"] by simp
  have mx: "max e emin = e" using e0 assms(2) by simp
  define j where "j = nat (p - 1 - e)"
  have k: "e - (p - 1) = - int j" using ep by (simp add: j_def)
  have q: "(2::real) powi (e - (p - 1)) = 1 / 2 ^ j"
    unfolding k by (simp add: power_int_minus_divide)
  have "real_of_int n / (1 / 2 ^ j) = real_of_int (n * 2 ^ j)" by simp
  then have "round_half_even (real_of_int n / (1 / 2 ^ j)) = n * 2 ^ j"
    by (simp only: round_half_even_of_int)
  then show ?thesis
    by (simp add: ieee_round_def Let_def mx q flip: e_def)
qed

lemma binary64_nonneg: "0 \<le> x \<Longrightarrow> 0 \<le> binary64 x"
  by (simp add: binary64_def ieee_round_nonneg)

lemma binary64_zero [simp]: "binary64 0 = 0"
  by (simp add: binary64_def)

lemma binary64_of_int: "\<bar>n\<bar> < 2 ^ 53 \<Longrightarrow> binary64 (real_of_int n) = real_of_int n"
  unfolding binary64_def by (rule ieee_round_of_int) simp_all

lemma binary64_of_nat: "n < 2 ^ 53 \<Longrightarrow> binary64 (real n) = real n"
  using binary64_of_int[of "int n"] by simp

lemma binary64_upper:
  assumes "1 / 2 ^ 40 \<le> x"
  shows "binary64 x \<le> x * (1 + 1 / 2 ^ 53)"
proof -
  have "(2::real) powi (- 1022) \<le> 2 powi (- 40)"
    by (rule power_int_increasing) simp_all
  also have "(2::real) powi (- 40) = 1 / 2 ^ 40"
    by (simp add: power_int_minus_divide)
  finally have "2 powi (- 1022) \<le> \<bar>x\<bar>" using assms by simp
  from ieee_round_error[OF this, of 53]
  have "\<bar>binary64 x - x\<bar> \<le> \<bar>x\<bar> * (1 / 2 ^ 53)"
    by (simp add: binary64_def power_int_minus_divide)
  moreover have "0 \<le> x" using assms by (smt (verit) divide_nonneg_nonneg zero_le_power)
  ultimately show ?thesis by (simp add: algebra_simps abs_if split: if_splits)
qed

lemma binary64_lower:
  assumes "1 / 2 ^ 40 \<le> x"
  shows "x * (1 - 1 / 2 ^ 53) \<le> binary64 x"
proof -
  have "(2::real) powi (- 1022) \<le> 2 powi (- 40)"
    by (rule power_int_increasing) simp_all
  also have "(2::real) powi (- 40) = 1 / 2 ^ 40"
    by (simp add: power_int_minus_divide)
  finally have "2 powi (- 1022) \<le> \<bar>x\<bar>" using assms by simp
  from ieee_round_error[OF this, of 53]
  have "\<bar>binary64 x - x\<bar> \<le> \<bar>x\<bar> * (1 / 2 ^ 53)"
    by (simp add: binary64_def power_int_minus_divide)
  moreover have "0 \<le> x" using assms by (smt (verit) divide_nonneg_nonneg zero_le_power)
  ultimately show ?thesis by (simp add: algebra_simps abs_if split: if_splits)
qed

lemma float_index_range:
  fixes x C :: int and S :: nat
  assumes x: "0 \<le> x" "x < C" and C: "C \<le> 2 ^ 31" and S: "0 < S" "S < 2 ^ 53"
  shows "0 \<le> \<lfloor>binary64 (binary64 (real_of_int x / real_of_int C) * binary64 (real S))\<rfloor>"
    and "\<lfloor>binary64 (binary64 (real_of_int x / real_of_int C) * binary64 (real S))\<rfloor> \<le> int S - 1"
proof -
  let ?t = "real_of_int x / real_of_int C"
  let ?r1 = "binary64 ?t"
  let ?r2 = "binary64 (?r1 * binary64 (real S))"
  have flS: "binary64 (real S) = real S" by (rule binary64_of_nat[OF S(2)])
  have Cpos: "0 < real_of_int C" using x by simp
  have t0: "0 \<le> ?t" using x by simp
  have r10: "0 \<le> ?r1" by (rule binary64_nonneg[OF t0])
  have "0 \<le> ?r1 * binary64 (real S)"
    using r10 by (simp add: flS)
  then have r20: "0 \<le> ?r2" by (rule binary64_nonneg)
  show "0 \<le> \<lfloor>?r2\<rfloor>" using r20 by simp
  have "?r2 < real S"
  proof (cases "x = 0")
    case True
    then show ?thesis using S(1) by (simp add: flS)
  next
    case False
    define a :: real where "a = 1 - 1 / 2 ^ 31"
    define v :: real where "v = 1 + 1 / 2 ^ 53"
    have v0: "0 \<le> v" by (simp add: v_def)
    have avv: "a * v * v < 1" by (simp add: a_def v_def)
    have C31: "real_of_int C \<le> 2 ^ 31"
      using C by (metis of_int_le_iff of_int_numeral of_int_power)
    have x1: "1 \<le> real_of_int x" using False x(1) by simp
    have tlow: "1 / 2 ^ 31 \<le> ?t"
    proof -
      have "1 / 2 ^ 31 \<le> 1 / real_of_int C"
        using C31 Cpos by (intro divide_left_mono) simp_all
      also have "\<dots> \<le> ?t"
        using x1 Cpos by (intro divide_right_mono) simp_all
      finally show ?thesis .
    qed
    have tup: "?t \<le> a"
    proof -
      have "real_of_int x \<le> real_of_int C - 1" using x(2) by simp
      then have "?t \<le> (real_of_int C - 1) / real_of_int C"
        using Cpos by (intro divide_right_mono) simp_all
      also have "\<dots> = 1 - 1 / real_of_int C"
        using Cpos by (simp add: field_simps)
      also have "\<dots> \<le> 1 - 1 / 2 ^ 31"
      proof -
        have "1 / 2 ^ 31 \<le> 1 / real_of_int C"
          using C31 Cpos by (intro divide_left_mono) simp_all
        then show ?thesis by simp
      qed
      finally show ?thesis by (simp add: a_def)
    qed
    have t40: "1 / 2 ^ 40 \<le> ?t"
    proof -
      have "(1::real) / 2 ^ 40 \<le> 1 / 2 ^ 31" by simp
      with tlow show ?thesis by linarith
    qed
    have r1up: "?r1 \<le> a * v"
    proof -
      have "?r1 \<le> ?t * v" unfolding v_def by (rule binary64_upper[OF t40])
      also have "\<dots> \<le> a * v" using tup v0 by (intro mult_right_mono)
      finally show ?thesis .
    qed
    have r1low: "1 / 2 ^ 32 \<le> ?r1"
    proof -
      have "(1::real) / 2 ^ 32 \<le> 1 / 2 ^ 31 * (1 - 1 / 2 ^ 53)" by simp
      also have "\<dots> \<le> ?t * (1 - 1 / 2 ^ 53)"
        using tlow by (intro mult_right_mono) simp_all
      also have "\<dots> \<le> ?r1" by (rule binary64_lower[OF t40])
      finally show ?thesis .
    qed
    have S1: "1 \<le> real S" using S(1) by simp
    have p40: "1 / 2 ^ 40 \<le> ?r1 * real S"
    proof -
      have "(1::real) / 2 ^ 40 \<le> 1 / 2 ^ 32 * 1" by simp
      also have "\<dots> \<le> ?r1 * real S"
        using r1low S1 by (intro mult_mono) simp_all
      finally show ?thesis .
    qed
    have "?r2 \<le> (?r1 * real S) * v"
      unfolding v_def flS by (rule binary64_upper[OF p40])
    also have "\<dots> \<le> (a * v * real S) * v"
      using r1up v0 S1 by (intro mult_right_mono) simp_all
    also have "\<dots> = (a * v * v) * real S" by simp
    also have "\<dots> < 1 * real S"
      using avv S(1) by (intro mult_strict_right_mono) simp_all
    finally show ?thesis by simp
  qed
  then have "\<lfloor>?r2\<rfloor> < int S"
    by (simp add: floor_less_iff)
  then show "\<lfloor>?r2\<rfloor> \<le> int S - 1" by simp
qed

lemma binary64_numeral: "(numeral n :: int) < 2 ^ 53 \<Longrightarrow> binary64 (numeral n) = numeral n"
  using binary64_of_int[of "numeral n"] by simp

lemma binary64_one [simp]: "binary64 1 = 1"
  using binary64_of_int[of 1] by simp

lemma fold_min_Min: "fold min xs (x::real) = Min (set (x # xs))"
  by (simp only: Min.set_eq_fold)

lemma fold_max_Max: "fold max xs (x::real) = Max (set (x # xs))"
  by (simp only: Max.set_eq_fold)

lemma np_min_eq: "xs \<noteq> [] \<Longrightarrow> np_min xs = Inr (Min (set xs))"
  by (cases xs) (simp_all only: np_min.simps fold_min_Min, simp)

lemma np_max_eq: "xs \<noteq> [] \<Longrightarrow> np_max xs = Inr (Max (set xs))"
  by (cases xs) (simp_all only: np_max.simps fold_max_Max, simp)

lemma nth_nth_in_concat: "i < length sl \<Longrightarrow> j < length (sl ! i) \<Longrightarrow> sl ! i ! j \<in> set (concat sl)"
  by (metis nth_mem set_concat UN_I)

lemma display_image_pixels_varied:
  assumes "concat sl \<noteq> []" and "slice_max sl \<noteq> slice_min sl"
  shows "display_image_pixels fl b c sl =
           Inr (map (map (\<lambda>v. astype_uint8 (np_clip
                  (fl (fl (normalized_value fl sl v * fl c) + fl b)) 0 255))) sl)"
  using assms
  by (simp add: display_image_pixels_def np_min_eq np_max_eq comp_def normalized_value_def
        slice_min_def slice_max_def)

lemma display_image_pixels_flat:
  assumes "concat sl \<noteq> []" and "slice_max sl = slice_min sl"
  shows "display_image_pixels fl b c sl =
           Inr (map (map (\<lambda>v. astype_uint8 (np_clip (fl (fl 0 + fl b)) 0 255))) sl)"
  using assms
  by (simp add: display_image_pixels_def np_min_eq np_max_eq comp_def slice_min_def slice_max_def)

section \<open>Rendering never fails on a loaded volume\<close>

lemma concat_grid_nonempty:
  "0 < m \<Longrightarrow> 0 < n \<Longrightarrow> concat (map (\<lambda>j. map (f j) [0..<n]) [0..<m]) \<noteq> []"
  by (cases m; cases n) (simp_all add: upt_conv_Cons del: upt_Suc)

lemma concat_flip_nonempty: "concat sl \<noteq> [] \<Longrightarrow> concat (flipud_fliplr sl) \<noteq> []"
  by (auto simp: flipud_fliplr_def)

lemma slice_axis0_nonempty: "0 < shape1 a \<Longrightarrow> 0 < shape2 a \<Longrightarrow> concat (flipud_fliplr (slice_axis0 a k)) \<noteq> []"
  unfolding slice_axis0_def by (rule concat_flip_nonempty, rule concat_grid_nonempty)

lemma slice_axis1_nonempty: "0 < shape0 a \<Longrightarrow> 0 < shape2 a \<Longrightarrow> concat (flipud_fliplr (slice_axis1 a k)) \<noteq> []"
  unfolding slice_axis1_def by (rule concat_flip_nonempty, rule concat_grid_nonempty)

lemma slice_axis2_nonempty: "0 < shape0 a \<Longrightarrow> 0 < shape1 a \<Longrightarrow> concat (flipud_fliplr (slice_axis2 a k)) \<noteq> []"
  unfolding slice_axis2_def by (rule concat_flip_nonempty, rule concat_grid_nonempty)

lemma display_image_pixels_total:
  "concat sl \<noteq> [] \<Longrightarrow> \<exists>px. display_image_pixels fl b c sl = Inr px"
  by (cases "concat sl") (simp_all add: display_image_pixels_def Let_def)

lemma then_do_Returned [simp]: "then_do x Returned = x"
  by (cases x) simp_all

lemma grid_dims:
  "length (flipud_fliplr (map (\<lambda>j. map (g j) [0..<n]) [0..<m])) = m"
  "0 < m \<Longrightarrow> length (hd (flipud_fliplr (map (\<lambda>j. map (g j) [0..<n]) [0..<m]))) = n"
  by (simp_all add: flipud_fliplr_def hd_rev last_map)

lemma display_image_total:
  "concat sl \<noteq> [] \<Longrightarrow>
     \<exists>px. display_image s dt sl l pl z =
            Inr (px, setPixmap (zoomed_pixmap (length (hd sl)) (length sl) z) l)"
  using display_image_pixels_total[of sl "np_round dt" "brightness s pl" "contrast s pl"]
  by (auto simp: display_image_def Let_def zoomed_pixmap_def)

lemma np_index_in_range: "0 \<le> i \<Longrightarrow> i < int n \<Longrightarrow> np_index n i = Inr (nat i)"
  by (simp add: np_index_def)

lemma update_xy_image_loaded:
  assumes "loaded a s"
  shows "update_xy_image s (slider_value (xy_slider s)) =
           Returned (s\<lparr>xy_label := setPixmap (zoomed_pixmap (shape2 a) (shape1 a) (zoom_level_xy s)) (xy_label s)\<rparr>)"
proof -
  from assms have img: "image_array s = Some a" and pos: "0 < shape1 a" "0 < shape2 a"
    and idx: "0 \<le> slider_value (xy_slider s)" "slider_value (xy_slider s) < int (shape0 a)"
    by (auto simp: loaded_def slider_ok_def)
  let ?sl = "flipud_fliplr (slice_axis0 a (nat (slider_value (xy_slider s))))"
  have dims: "length ?sl = shape1 a" "length (hd ?sl) = shape2 a"
    using pos(1) by (simp_all add: slice_axis0_def grid_dims)
  obtain px where "display_image s (dtype a) ?sl (xy_label s) XY (zoom_level_xy s) =
      Inr (px, setPixmap (zoomed_pixmap (length (hd ?sl)) (length ?sl) (zoom_level_xy s)) (xy_label s))"
    using display_image_total[OF slice_axis0_nonempty[OF pos]] by blast
  then show ?thesis
    by (simp add: update_xy_image_def img np_index_in_range[OF idx] dims)
qed

lemma update_xz_image_loaded:
  assumes "loaded a s"
  shows "update_xz_image s (slider_value (xz_slider s)) =
           Returned (s\<lparr>xz_label := setPixmap (zoomed_pixmap (shape2 a) (shape0 a) (zoom_level_xz s)) (xz_label s)\<rparr>)"
proof -
  from assms have img: "image_array s = Some a" and pos: "0 < shape0 a" "0 < shape2 a"
    and idx: "0 \<le> slider_value (xz_slider s)" "slider_value (xz_slider s) < int (shape1 a)"
    by (auto simp: loaded_def slider_ok_def)
  let ?sl = "flipud_fliplr (slice_axis1 a (nat (slider_value (xz_slider s))))"
  have dims: "length ?sl = shape0 a" "length (hd ?sl) = shape2 a"
    using pos(1) by (simp_all add: slice_axis1_def grid_dims)
  obtain px where "display_image s (dtype a) ?sl (xz_label s) XZ (zoom_level_xz s) =
      Inr (px, setPixmap (zoomed_pixmap (length (hd ?sl)) (length ?sl) (zoom_level_xz s)) (xz_label s))"
    using display_image_total[OF slice_axis1_nonempty[OF pos]] by blast
  then show ?thesis
    by (simp add: update_xz_image_def img np_index_in_range[OF idx] dims)
qed

lemma update_zy_image_loaded:
  assumes "loaded a s"
  shows "update_zy_image s (slider_value (zy_slider s)) =
           Returned (s\<lparr>zy_label := setPixmap (zoomed_pixmap (shape1 a) (shape0 a) (zoom_level_yz s)) (zy_label s)\<rparr>)"
proof -
  from assms have img: "image_array s = Some a" and pos: "0 < shape0 a" "0 < shape1 a"
    and idx: "0 \<le> slider_value (zy_slider s)" "slider_value (zy_slider s) < int (shape2 a)"
    by (auto simp: loaded_def slider_ok_def)
  let ?sl = "flipud_fliplr (slice_axis2 a (nat (slider_value (zy_slider s))))"
  have dims: "length ?sl = shape0 a" "length (hd ?sl) = shape1 a"
    using pos(1) by (simp_all add: slice_axis2_def grid_dims)
  obtain px where "display_image s (dtype a) ?sl (zy_label s) ZY (zoom_level_yz s) =
      Inr (px, setPixmap (zoomed_pixmap (length (hd ?sl)) (length ?sl) (zoom_level_yz s)) (zy_label s))"
    using display_image_total[OF slice_axis2_nonempty[OF pos]] by blast
  then show ?thesis
    by (simp add: update_zy_image_def img np_index_in_range[OF idx] dims)
qed

lemma loaded_relabel [simp]:
  "loaded a (s\<lparr>xy_label := l\<rparr>) = loaded a s"
  "loaded a (s\<lparr>xz_label := l\<rparr>) = loaded a s"
  "loaded a (s\<lparr>zy_label := l\<rparr>) = loaded a s"
  by (simp_all add: loaded_def)

lemma relabelled_rendered: "relabelled (rendered a s) s"
  unfolding relabelled_def rendered_def
  by (intro exI conjI, rule refl) (simp_all add: same_place_def setPixmap_def)

lemma render_three_rendered:
  assumes "loaded a s"
  shows "then_do (update_xy_image s (slider_value (xy_slider s))) (\<lambda>s1.
           then_do (update_xz_image s1 (slider_value (xz_slider s))) (\<lambda>s2.
           then_do (update_zy_image s2 (slider_value (zy_slider s))) f)) = f (rendered a s)"
proof -
  let ?s1 = "s\<lparr>xy_label := setPixmap (zoomed_pixmap (shape2 a) (shape1 a) (zoom_level_xy s)) (xy_label s)\<rparr>"
  let ?s2 = "?s1\<lparr>xz_label := setPixmap (zoomed_pixmap (shape2 a) (shape0 a) (zoom_level_xz s)) (xz_label s)\<rparr>"
  have 1: "update_xy_image s (slider_value (xy_slider s)) = Returned ?s1"
    by (rule update_xy_image_loaded[OF assms])
  have "loaded a ?s1" using assms by simp
  from update_xz_image_loaded[OF this]
  have 2: "update_xz_image ?s1 (slider_value (xz_slider s)) = Returned ?s2"
    by simp
  have "loaded a ?s2" using assms by simp
  from update_zy_image_loaded[OF this]
  have 3: "update_zy_image ?s2 (slider_value (zy_slider s)) = Returned (rendered a s)"
    by (simp add: rendered_def)
  show ?thesis by (simp add: 1 2 3)
qed

lemma render_three_loaded:
  assumes "loaded a s"
  shows "\<exists>s'. then_do (update_xy_image s (slider_value (xy_slider s))) (\<lambda>s1.
               then_do (update_xz_image s1 (slider_value (xz_slider s))) (\<lambda>s2.
               then_do (update_zy_image s2 (slider_value (zy_slider s))) f)) = f s'
             \<and> relabelled s' s"
  using render_three_rendered[OF assms, of f] relabelled_rendered[of a s] by blast

lemma update_all_images_rendered:
  assumes "loaded a s"
  shows "update_all_images s = Returned (rendered a s)"
  using render_three_rendered[OF assms, of Returned]
  by (simp add: update_all_images_def Let_def)

lemma update_all_images_loaded:
  assumes "loaded a s"
  shows "\<exists>s'. update_all_images s = Returned s' \<and> relabelled s' s"
  using render_three_loaded[OF assms, of Returned]
  by (simp add: update_all_images_def Let_def)

lemma update_all_images_unloaded:
  "image_array s = None \<Longrightarrow> update_all_images s = Returned s"
  by (simp add: update_all_images_def update_xy_image_def update_xz_image_def update_zy_image_def)

section \<open>Intensity normalisation\<close>

lemma quantize_0: "astype_uint8 (np_clip 0 0 255) = 0"
  by (simp add: astype_uint8_def py_int_def np_clip_def)

lemma quantize_255: "astype_uint8 (np_clip 255 0 255) = 255"
  by (simp add: astype_uint8_def py_int_def np_clip_def)

lemma quantize_250: "astype_uint8 (np_clip 250 0 255) = 250"
  by (simp add: astype_uint8_def py_int_def np_clip_def)

lemma ex_slice_min: "slice_min [[10, 200], [50, 120]] = 10"
  by (simp add: slice_min_def)

lemma ex_slice_max: "slice_max [[10, 200], [50, 120]] = 200"
  by (simp add: slice_max_def)

lemma exact_on_binary64: "exact_on binary64 [0, 1, 2, 50, 200, 250, 255]"
  by (simp add: exact_on_def binary64_numeral)

text \<open>
  Claim C3, as amended. For a slice whose maximum differs from its minimum, the pixel
  displayed at row \<open>i\<close>, column \<open>j\<close> is the 8-bit conversion of
  \<open>clip(norm * c + b, 0, 255)\<close>, where \<open>norm\<close> is the raw value rescaled by the minimum
  and maximum of the slice and every operation is rounded to the format of the array.
  In a format that holds the integers involved: with \<open>b = 0\<close>, \<open>c = 1\<close> the minimum is
  displayed as 0 and the maximum as 255; with \<open>c = 2\<close>, \<open>b = 50\<close> a normalised value of
  100 is displayed as 250 (the claim says 255).
\<close>

theorem display_image_pixel_value:
  assumes "i < length sl" and "j < length (sl ! i)" and "slice_max sl \<noteq> slice_min sl"
  shows "\<exists>out. display_image_pixels fl b c sl = Inr out \<and>
           out ! i ! j =
             astype_uint8 (np_clip (fl (fl (normalized_value fl sl (sl ! i ! j) * fl c) + fl b)) 0 255) \<and>
           (exact_on fl [0, 1] \<and> b = 0 \<and> c = 1 \<and> sl ! i ! j = slice_min sl \<longrightarrow> out ! i ! j = 0) \<and>
           (exact_on fl [0, 1, 255] \<and> fl (slice_max sl - slice_min sl) \<noteq> 0 \<and>
              b = 0 \<and> c = 1 \<and> sl ! i ! j = slice_max sl \<longrightarrow> out ! i ! j = 255) \<and>
           (exact_on fl [2, 50, 200, 250] \<and> b = 50 \<and> c = 2 \<and>
              normalized_value fl sl (sl ! i ! j) = 100 \<longrightarrow> out ! i ! j = 250)"
proof -
  let ?f = "\<lambda>v. astype_uint8 (np_clip (fl (fl (normalized_value fl sl v * fl c) + fl b)) 0 255)"
  have ne: "concat sl \<noteq> []"
    using nth_nth_in_concat[OF assms(1,2)] by (metis empty_iff empty_set)
  define out where "out = map (map ?f) sl"
  have out: "display_image_pixels fl b c sl = Inr out"
    using display_image_pixels_varied[OF ne assms(3), of fl b c] by (simp add: out_def)
  have px: "out ! i ! j = ?f (sl ! i ! j)"
    using assms(1,2) by (simp add: out_def)
  have lo: "exact_on fl [0, 1] \<and> b = 0 \<and> c = 1 \<and> sl ! i ! j = slice_min sl \<longrightarrow> ?f (sl ! i ! j) = 0"
    by (simp add: exact_on_def normalized_value_def quantize_0)
  have hi: "exact_on fl [0, 1, 255] \<and> fl (slice_max sl - slice_min sl) \<noteq> 0 \<and>
              b = 0 \<and> c = 1 \<and> sl ! i ! j = slice_max sl \<longrightarrow> ?f (sl ! i ! j) = 255"
    by (simp add: exact_on_def normalized_value_def quantize_255)
  have mid: "exact_on fl [2, 50, 200, 250] \<and> b = 50 \<and> c = 2 \<and>
              normalized_value fl sl (sl ! i ! j) = 100 \<longrightarrow> ?f (sl ! i ! j) = 250"
    by (simp add: exact_on_def quantize_250)
  show ?thesis
  proof (intro exI[of _ out] conjI)
    show "display_image_pixels fl b c sl = Inr out" by (rule out)
    show "out ! i ! j = ?f (sl ! i ! j)" by (rule px)
    show "exact_on fl [0, 1] \<and> b = 0 \<and> c = 1 \<and> sl ! i ! j = slice_min sl \<longrightarrow> out ! i ! j = 0"
      unfolding px by (rule lo)
    show "exact_on fl [0, 1, 255] \<and> fl (slice_max sl - slice_min sl) \<noteq> 0 \<and>
            b = 0 \<and> c = 1 \<and> sl ! i ! j = slice_max sl \<longrightarrow> out ! i ! j = 255"
      unfolding px by (rule hi)
    show "exact_on fl [2, 50, 200, 250] \<and> b = 50 \<and> c = 2 \<and>
            normalized_value fl sl (sl ! i ! j) = 100 \<longrightarrow> out ! i ! j = 250"
      unfolding px by (rule mid)
  qed
qed

text \<open>The slice of the specification's example: minimum 10, maximum 200, in doubles.\<close>

theorem display_image_pixel_value_witness:
  "(0::nat) < length [[10, 200], [50, 120::real]] \<and> (1::nat) < length ([[10, 200], [50, 120::real]] ! 0) \<and>
   slice_max [[10, 200], [50, 120]] \<noteq> slice_min [[10, 200], [50, 120]] \<and>
   (\<exists>out. display_image_pixels binary64 0 1 [[10, 200], [50, 120]] = Inr out \<and> out ! 0 ! 1 = 255)"
  using display_image_pixel_value[of 0 "[[10, 200], [50, 120]]" 1 binary64 0 1] exact_on_binary64
  by (auto simp add: ex_slice_min ex_slice_max exact_on_def binary64_numeral)

text \<open>
  In the slice \<open>[[0, 100, 255]]\<close> of doubles the raw value 100 has the normalised value
  100; with contrast 2 and brightness 50 it is displayed as 250, not 255.
\<close>

lemma binary64_100_255: "binary64 (binary64 (20 / 51) * 255) = 100"
  by code_simp

theorem normalized_100_displays_250:
  "normalized_value binary64 [[0, 100, 255]] 100 = 100 \<and>
   display_image_pixels binary64 50 2 [[0, 100, 255]] = Inr [[50, 250, 255]] \<and>
   [[50, 250, 255]] ! 0 ! 1 \<noteq> (255::int)"
  by (simp add: normalized_value_def slice_min_def slice_max_def display_image_pixels_def
        binary64_numeral binary64_100_255 astype_uint8_def py_int_def np_clip_def)

text \<open>
  Rounding is visible in the pixels: with contrast \<open>0.12\<close> the raw value 25 of the same
  kind of slice is displayed as 3, since the product of 25 and the double nearest to
  \<open>0.12\<close> rounds to 3; the exact product is below 3.
\<close>

lemma binary64_25_255: "binary64 (binary64 (5 / 51) * 255) = 25"
  by code_simp

lemma binary64_25_times: "binary64 (binary64 (25 * binary64 (3 / 25))) = 3"
  by code_simp

lemma binary64_255_times: "\<lfloor>binary64 (binary64 (255 * binary64 (3 / 25)))\<rfloor> = 30"
  by code_simp

lemma binary64_255_times_bounds:
  "0 \<le> binary64 (binary64 (255 * binary64 (3 / 25)))"
  "binary64 (binary64 (255 * binary64 (3 / 25))) \<le> 255"
  by code_simp+

lemma exact_product_below_3: "\<lfloor>25 * binary64 (3 / 25)\<rfloor> = 2"
  by code_simp

lemma display_rounds_product:
  "display_image_pixels binary64 0 (12 / 100) [[0, 25, 255]] = Inr [[0, 3, 30]] \<and>
   \<lfloor>25 * binary64 (12 / 100)\<rfloor> = 2"
  using binary64_255_times_bounds
  by (simp add: display_image_pixels_def binary64_numeral binary64_25_255 binary64_25_times
        binary64_255_times exact_product_below_3 astype_uint8_def py_int_def np_clip_def)

text \<open>
  Claim C4, as amended. For a slice that is not empty and whose maximum equals its
  minimum, every displayed pixel is the 8-bit conversion of \<open>clip(b, 0, 255)\<close> for the
  brightness term \<open>b\<close> of the view, whatever the contrast; the output is all zero when
  \<open>b = 0\<close>. This holds in every format that holds 0 and \<open>b\<close>, and so for every value
  the brightness term takes.
\<close>

theorem flat_slice_displays_brightness:
  assumes "concat sl \<noteq> []" and "slice_max sl = slice_min sl" and "fl 0 = 0" and "fl b = b"
  shows "display_image_pixels fl b c sl = Inr (map (map (\<lambda>v. astype_uint8 (np_clip b 0 255))) sl) \<and>
         (b = 0 \<longrightarrow> display_image_pixels fl b c sl = Inr (map (map (\<lambda>v. 0)) sl))"
  using display_image_pixels_flat[OF assms(1,2), of fl b c] assms(3,4)
  by (auto simp add: quantize_0)

theorem flat_slice_displays_brightness_witness:
  "concat [[7, 7], [7, 7::real]] \<noteq> [] \<and> slice_max [[7, 7], [7, 7]] = slice_min [[7, 7], [7, 7]] \<and>
   binary64 0 = 0 \<and>
   display_image_pixels binary64 0 3 [[7, 7], [7, 7]] = Inr [[0, 0], [0, 0]]"
  using flat_slice_displays_brightness[of "[[7, 7], [7, 7]]" binary64 0 3]
  by (simp add: slice_min_def slice_max_def quantize_0)

text \<open>A flat slice shown with brightness 50 is 50 everywhere.\<close>

theorem flat_slice_not_all_zero:
  "slice_max [[7, 7], [7, 7]] = slice_min [[7, 7], [7, 7]] \<and>
   display_image_pixels binary64 50 1 [[7, 7], [7, 7]] = Inr [[50, 50], [50, 50]]"
  using display_image_pixels_flat[of "[[7, 7], [7, 7]]" binary64 50 1]
  by (simp add: slice_min_def slice_max_def binary64_numeral astype_uint8_def py_int_def np_clip_def)

section \<open>Transfer functions\<close>

lemma voxels_two_voxel_volume: "voxels (two_voxel_volume lo hi) = [lo, hi]"
  by (simp add: voxels_def slice_axis0_def two_voxel_volume_def upt_conv_Cons)

lemma emitted_add_node: "emitted (add_node x v f) = emitted f @ [(x, v)]"
  by (simp add: add_node_def)

lemma initialize_transfer_functions_result:
  assumes "voxels arr \<noteq> []"
  shows "initialize_transfer_functions arr r =
           Inr (r\<lparr>color_transfer_function :=
                     AddRGBPoint (volume_max arr) 1 1 1
                       (AddRGBPoint (volume_max arr * 0.5) 0.95 0.85 0.7
                         (AddRGBPoint (volume_max arr * 0.25) 0.85 0.55 0.3
                           (AddRGBPoint (volume_min arr) 0 0 0
                             (RemoveAllPoints (color_transfer_function r))))),
                   opacity_transfer_function :=
                     AddPoint (volume_max arr) 1
                       (AddPoint (volume_max arr * 0.5) 0.4
                         (AddPoint (volume_max arr * 0.25) 0.1
                           (AddPoint (volume_min arr) 0
                             (RemoveAllPoints (opacity_transfer_function r)))))\<rparr>)"
  using assms
  by (simp add: initialize_transfer_functions_def np_min_eq np_max_eq volume_min_def volume_max_def)

text \<open>The nodes of a transfer function stay strictly increasing in scalar position.\<close>

lemma RemovePoint_subset: "set (RemovePoint x ns) \<subseteq> set ns"
  by (induction ns) auto

lemma RemovePoint_sorted:
  "sorted_wrt (<) (map fst ns) \<Longrightarrow>
     sorted_wrt (<) (map fst (RemovePoint x ns)) \<and> x \<notin> fst ` set (RemovePoint x ns)"
proof (induction ns)
  case Nil
  then show ?case by simp
next
  case (Cons n ns)
  then have rest: "sorted_wrt (<) (map fst ns)" and less: "\<forall>m \<in> set ns. fst n < fst m"
    by auto
  show ?case
  proof (cases "fst n = x")
    case True
    then show ?thesis using rest less by force
  next
    case False
    then show ?thesis
      using Cons.IH[OF rest] less RemovePoint_subset[of x ns] by auto
  qed
qed

lemma distinct_map_insort_key:
  "distinct (map f (insort_key f a xs)) = (f a \<notin> f ` set xs \<and> distinct (map f xs))"
  by (induction xs) (auto simp: set_insort_key)

lemma distinct_map_sort_key: "distinct (map f (sort_key f xs)) = distinct (map f xs)"
  by (induction xs) (simp_all add: distinct_map_insort_key)

lemma add_node_sorted:
  assumes "sorted_wrt (<) (map fst (nodes f))"
  shows "sorted_wrt (<) (map fst (nodes (add_node x v f)))"
proof -
  from RemovePoint_sorted[OF assms, of x]
  have 1: "sorted_wrt (<) (map fst (RemovePoint x (nodes f)))"
    and 2: "x \<notin> fst ` set (RemovePoint x (nodes f))"
    by simp_all
  from 1 have "distinct (map fst (RemovePoint x (nodes f)))"
    by (simp add: strict_sorted_iff)
  with 2 have "distinct (map fst (RemovePoint x (nodes f) @ [(x, v)]))"
    by auto
  then have "distinct (map fst (sort_key fst (RemovePoint x (nodes f) @ [(x, v)])))"
    by (simp only: distinct_map_sort_key)
  moreover have "sorted (map fst (sort_key fst (RemovePoint x (nodes f) @ [(x, v)])))"
    by (rule sorted_sort_key)
  ultimately show ?thesis
    by (simp add: add_node_def strict_sorted_iff)
qed

lemma nodes_RemoveAllPoints: "sorted_wrt (<) (map fst (nodes (RemoveAllPoints f)))"
  by (simp add: RemoveAllPoints_def)

text \<open>
  Claim C7. For a volume with at least one voxel, \<open>initialize_transfer_functions\<close> emits
  exactly four control points per function, at the scalar positions \<open>min_val\<close>,
  \<open>0.25 * max_val\<close>, \<open>0.5 * max_val\<close>, \<open>max_val\<close>, with the colours \<open>(0,0,0)\<close>,
  \<open>(0.85,0.55,0.30)\<close>, \<open>(0.95,0.85,0.70)\<close>, \<open>(1,1,1)\<close> and the opacities \<open>0.0\<close>, \<open>0.1\<close>,
  \<open>0.4\<close>, \<open>1.0\<close>, in that order; for \<open>min_val = 0\<close> and \<open>max_val = 1000\<close> the opacity points
  sit at \<open>0, 250, 500, 1000\<close>.
\<close>

theorem transfer_function_control_points:
  assumes "voxels arr \<noteq> []"
  shows "\<exists>r'. initialize_transfer_functions arr r = Inr r' \<and>
           emitted (color_transfer_function r') =
             [(volume_min arr, 0, 0, 0), (0.25 * volume_max arr, 0.85, 0.55, 0.30),
              (0.5 * volume_max arr, 0.95, 0.85, 0.70), (volume_max arr, 1, 1, 1)] \<and>
           emitted (opacity_transfer_function r') =
             [(volume_min arr, 0.0), (0.25 * volume_max arr, 0.1),
              (0.5 * volume_max arr, 0.4), (volume_max arr, 1.0)] \<and>
           (volume_min arr = 0 \<and> volume_max arr = 1000 \<longrightarrow>
              emitted (opacity_transfer_function r') = [(0, 0), (250, 0.1), (500, 0.4), (1000, 1.0)])"
  unfolding initialize_transfer_functions_result[OF assms]
  by (simp add: AddPoint_def AddRGBPoint_def emitted_add_node RemoveAllPoints_def mult.commute)

theorem transfer_function_control_points_witness:
  "voxels (two_voxel_volume 0 1000) \<noteq> [] \<and>
   (\<exists>r'. initialize_transfer_functions (two_voxel_volume 0 1000) VolumeRenderer = Inr r' \<and>
      emitted (opacity_transfer_function r') = [(0, 0), (250, 0.1), (500, 0.4), (1000, 1.0)])"
  using transfer_function_control_points[of "two_voxel_volume 0 1000" VolumeRenderer]
  by (auto simp add: voxels_two_voxel_volume volume_min_def volume_max_def)

text \<open>
  Claim C8. For every volume with at least one voxel, the scalar positions of the
  control points that the colour and the opacity transfer function hold after
  \<open>initialize_transfer_functions\<close> are strictly increasing.
\<close>

theorem transfer_function_positions_increasing:
  assumes "voxels arr \<noteq> []"
  shows "\<exists>r'. initialize_transfer_functions arr r = Inr r' \<and>
           sorted_wrt (<) (map fst (nodes (color_transfer_function r'))) \<and>
           sorted_wrt (<) (map fst (nodes (opacity_transfer_function r')))"
  unfolding initialize_transfer_functions_result[OF assms]
  by (simp add: AddPoint_def AddRGBPoint_def add_node_sorted nodes_RemoveAllPoints)

theorem transfer_function_positions_increasing_witness:
  "voxels (two_voxel_volume 0 1000) \<noteq> [] \<and>
   (\<exists>r'. initialize_transfer_functions (two_voxel_volume 0 1000) VolumeRenderer = Inr r' \<and>
      sorted_wrt (<) (map fst (nodes (opacity_transfer_function r'))))"
  using transfer_function_positions_increasing[of "two_voxel_volume 0 1000" VolumeRenderer]
  by (auto simp add: voxels_two_voxel_volume)

text \<open>
  Two volumes for which the emitted positions are not increasing: in a volume whose
  voxels are all 0 the four points coincide and the function keeps the last one; for
  the minimum 900 and the maximum 1000 the first point is emitted at 900 and sorted
  behind the quarter points.
\<close>

lemma blank_volume_nodes:
  "initialize_transfer_functions (two_voxel_volume 0 0) VolumeRenderer =
     Inr \<lparr>color_transfer_function =
            \<lparr>emitted = [(0, 0, 0, 0), (0, 0.85, 0.55, 0.3), (0, 0.95, 0.85, 0.7), (0, 1, 1, 1)],
             nodes = [(0, 1, 1, 1)]\<rparr>,
          opacity_transfer_function =
            \<lparr>emitted = [(0, 0), (0, 0.1), (0, 0.4), (0, 1)], nodes = [(0, 1)]\<rparr>\<rparr>"
  by (simp add: initialize_transfer_functions_def voxels_two_voxel_volume RemoveAllPoints_def
        AddRGBPoint_def AddPoint_def add_node_def VolumeRenderer_def)

lemma high_minimum_nodes:
  "map_sum id opacity_transfer_function
     (initialize_transfer_functions (two_voxel_volume 900 1000) VolumeRenderer) =
     Inr \<lparr>emitted = [(900, 0), (250, 0.1), (500, 0.4), (1000, 1)],
          nodes = [(250, 0.1), (500, 0.4), (900, 0), (1000, 1)]\<rparr>"
  by (simp add: initialize_transfer_functions_def voxels_two_voxel_volume RemoveAllPoints_def
        AddRGBPoint_def AddPoint_def add_node_def VolumeRenderer_def)

section \<open>Loading a volume\<close>

lemma setMaximum_setValue_ok:
  assumes "minimum sl = 0" and "0 < n"
  shows "slider_ok n (setValue ((int n - 1) div 2) (setMaximum (int n - 1) sl))"
    and "slider_value (setValue ((int n - 1) div 2) (setMaximum (int n - 1) sl)) = (int n - 1) div 2"
  using assms by (auto simp: slider_ok_def setValue_def setMaximum_def setRange_def)

lemma relabelled_fields:
  assumes "relabelled s' s"
  shows "xy_slider s' = xy_slider s" "xz_slider s' = xz_slider s" "zy_slider s' = zy_slider s"
    "current_crosshair s' = current_crosshair s" "image_array s' = image_array s"
    "brightness s' = brightness s" "contrast s' = contrast s"
    "zoom_level_xy s' = zoom_level_xy s" "zoom_level_xz s' = zoom_level_xz s"
    "zoom_level_yz s' = zoom_level_yz s" "playing_state s' = playing_state s"
    "loaded a s' = loaded a s"
  using assms by (auto simp: relabelled_def)

lemma load_image_loaded:
  assumes "0 < shape0 arr" "0 < shape1 arr" "0 < shape2 arr" and "slice_sliders_from_zero s"
  shows "\<exists>s'. load_image arr s = Returned s' \<and> loaded arr s' \<and>
           slider_value (xy_slider s') = (int (shape0 arr) - 1) div 2 \<and>
           slider_value (xz_slider s') = (int (shape1 arr) - 1) div 2 \<and>
           slider_value (zy_slider s') = (int (shape2 arr) - 1) div 2 \<and>
           current_crosshair s' = None"
proof -
  let ?s8 = "s\<lparr>image_array := Some arr,
      xy_slider := setValue ((int (shape0 arr) - 1) div 2) (setMaximum (int (shape0 arr) - 1) (xy_slider s)),
      xz_slider := setValue ((int (shape1 arr) - 1) div 2) (setMaximum (int (shape1 arr) - 1) (xz_slider s)),
      zy_slider := setValue ((int (shape2 arr) - 1) div 2) (setMaximum (int (shape2 arr) - 1) (zy_slider s)),
      current_crosshair := None\<rparr>"
  have eq: "load_image arr s = update_all_images ?s8"
    by (simp add: load_image_def Let_def)
  have mins: "minimum (xy_slider s) = 0" "minimum (xz_slider s) = 0" "minimum (zy_slider s) = 0"
    using assms(4) by (simp_all add: slice_sliders_from_zero_def)
  have ok: "loaded arr ?s8"
    using assms(1-3) setMaximum_setValue_ok(1)[OF mins(1) assms(1)]
      setMaximum_setValue_ok(1)[OF mins(2) assms(2)] setMaximum_setValue_ok(1)[OF mins(3) assms(3)]
    by (simp add: loaded_def)
  obtain s' where s': "update_all_images ?s8 = Returned s'" and rel: "relabelled s' ?s8"
    using update_all_images_loaded[OF ok] by blast
  have vals: "slider_value (xy_slider ?s8) = (int (shape0 arr) - 1) div 2"
    "slider_value (xz_slider ?s8) = (int (shape1 arr) - 1) div 2"
    "slider_value (zy_slider ?s8) = (int (shape2 arr) - 1) div 2"
    using setMaximum_setValue_ok(2)[OF mins(1) assms(1)]
      setMaximum_setValue_ok(2)[OF mins(2) assms(2)] setMaximum_setValue_ok(2)[OF mins(3) assms(3)]
    by simp_all
  show ?thesis
    using eq s' ok vals relabelled_fields[OF rel] by (intro exI[of _ s']) simp
qed

lemma ImageViewer_from_zero: "slice_sliders_from_zero (ImageViewer w h)"
  by (simp add: slice_sliders_from_zero_def ImageViewer_def QSlider_def)

text \<open>
  Claim C9, as amended. Loading a volume with extents \<open>(D0, D1, D2)\<close>, each at least 1,
  returns without raising, sets the crosshair to absent and sets each of the three slice
  indices to \<open>(extent - 1) // 2\<close> of its axis.
\<close>

theorem load_image_centres_sliders:
  assumes "0 < shape0 arr" and "0 < shape1 arr" and "0 < shape2 arr"
    and "slice_sliders_from_zero s"
  shows "\<exists>s'. load_image arr s = Returned s' \<and> current_crosshair s' = None \<and>
           slider_value (xy_slider s') = (int (shape0 arr) - 1) div 2 \<and>
           slider_value (xz_slider s') = (int (shape1 arr) - 1) div 2 \<and>
           slider_value (zy_slider s') = (int (shape2 arr) - 1) div 2"
  using load_image_loaded[OF assms] by blast

theorem load_image_centres_sliders_witness:
  "0 < shape0 (ramp_volume 5 4 4) \<and> 0 < shape1 (ramp_volume 5 4 4) \<and> 0 < shape2 (ramp_volume 5 4 4) \<and>
   slice_sliders_from_zero (ImageViewer 300 200) \<and>
   (\<exists>s'. load_image (ramp_volume 5 4 4) (ImageViewer 300 200) = Returned s' \<and>
      current_crosshair s' = None \<and> slider_value (xy_slider s') = 2 \<and>
      slider_value (xz_slider s') = 1 \<and> slider_value (zy_slider s') = 1)"
  using load_image_centres_sliders[of "ramp_volume 5 4 4" "ImageViewer 300 200"]
  by (auto simp add: ramp_volume_def ImageViewer_from_zero)

text \<open>
  For the extent 4 along axis 2 the slider is set to 1, while \<open>4 // 2 = 2\<close>.
\<close>

theorem load_image_even_extent_below_half:
  "slider_value (zy_slider (state_of (load_image (ramp_volume 5 4 4) (ImageViewer 300 200)))) = 1 \<and>
   int (shape2 (ramp_volume 5 4 4)) div 2 = 2"
proof -
  obtain s' where "load_image (ramp_volume 5 4 4) (ImageViewer 300 200) = Returned s'"
    and "slider_value (zy_slider s') = (int (shape2 (ramp_volume 5 4 4)) - 1) div 2"
    using load_image_loaded[of "ramp_volume 5 4 4" "ImageViewer 300 200"]
    by (auto simp add: ramp_volume_def ImageViewer_from_zero)
  then show ?thesis by (simp add: ramp_volume_def)
qed

section \<open>Playback, slider callbacks and clicks before a volume is loaded\<close>

lemma get_slider_relabelled:
  "relabelled s' s \<Longrightarrow> get_slider view s' = get_slider view s"
  by (simp add: get_slider_def relabelled_fields)

lemma update_slice_loaded:
  assumes "loaded a s"
  shows "\<exists>s3. relabelled s3 s \<and>
           update_slice view s =
             Returned (put_slider view
               (setValue (if slider_value (get_slider view s) < maximum (get_slider view s) - 1
                          then slider_value (get_slider view s) + 1 else 0)
                  (get_slider view s)) s3)"
proof -
  let ?f = "\<lambda>s3. (let slider = get_slider view s3; current_value = slider_value slider
             in if current_value < maximum slider - 1
                then Returned (put_slider view (setValue (current_value + 1) slider) s3)
                else Returned (put_slider view (setValue 0 slider) s3))"
  obtain s3 where run: "then_do (update_xy_image s (slider_value (xy_slider s))) (\<lambda>s1.
               then_do (update_xz_image s1 (slider_value (xz_slider s))) (\<lambda>s2.
               then_do (update_zy_image s2 (slider_value (zy_slider s))) ?f)) = ?f s3"
    and rel: "relabelled s3 s"
    using render_three_loaded[OF assms, of ?f] by blast
  have "update_slice view s = ?f s3"
    using run by (simp add: update_slice_def Let_def)
  then show ?thesis
    using rel by (intro exI[of _ s3]) (simp add: Let_def get_slider_relabelled[OF rel])
qed

lemma loaded_drag_xy:
  assumes "loaded a s" and "0 \<le> v" and "v < int (shape0 a)"
  shows "loaded a (s\<lparr>xy_slider := setValue v (xy_slider s)\<rparr>)"
    and "slider_value (setValue v (xy_slider s)) = v"
    and "maximum (setValue v (xy_slider s)) = int (shape0 a) - 1"
  using assms by (auto simp: loaded_def slider_ok_def setValue_def)

text \<open>
  Claim C1 states that one playback tick advances the slice index of a view to
  \<open>(slice_index + 1) mod extent\<close>, so that from \<open>extent - 2\<close> it reaches \<open>extent - 1\<close>.
  \<open>update_slice\<close> compares with \<open>maximum - 1\<close>, where \<open>maximum = extent - 1\<close>: in a
  volume of 5 axial slices with the axial slider at 3, the tick sets the slider to 0,
  while \<open>(3 + 1) mod 5 = 4\<close>.
\<close>

theorem update_slice_wraps_before_last:
  "\<exists>s1 s2. load_image (ramp_volume 5 4 4) (ImageViewer 300 200) = Returned s1 \<and>
      slider_value (xy_slider (s1\<lparr>xy_slider := setValue 3 (xy_slider s1)\<rparr>)) = 3 \<and>
      update_slice ''xy'' (s1\<lparr>xy_slider := setValue 3 (xy_slider s1)\<rparr>) = Returned s2 \<and>
      slider_value (xy_slider s2) = 0 \<and>
      (3 + 1) mod int (shape0 (ramp_volume 5 4 4)) = 4"
proof -
  let ?a = "ramp_volume 5 4 4"
  obtain s1 where s1: "load_image ?a (ImageViewer 300 200) = Returned s1" and l1: "loaded ?a s1"
    using load_image_loaded[of ?a "ImageViewer 300 200"]
    by (auto simp add: ramp_volume_def ImageViewer_from_zero)
  let ?s = "s1\<lparr>xy_slider := setValue 3 (xy_slider s1)\<rparr>"
  have sh: "int (shape0 ?a) = 5" by (simp add: ramp_volume_def)
  have l: "loaded ?a ?s" and v: "slider_value (setValue 3 (xy_slider s1)) = 3"
    and m: "maximum (setValue 3 (xy_slider s1)) = 4"
    using loaded_drag_xy[OF l1, of 3] sh by simp_all
  obtain s3 where rel: "relabelled s3 ?s"
    and run: "update_slice ''xy'' ?s =
       Returned (put_slider ''xy''
         (setValue (if slider_value (get_slider ''xy'' ?s) < maximum (get_slider ''xy'' ?s) - 1
                    then slider_value (get_slider ''xy'' ?s) + 1 else 0)
            (get_slider ''xy'' ?s)) s3)"
    using update_slice_loaded[OF l, of "''xy''"] by blast
  have min0: "minimum (xy_slider ?s) = 0"
    using l by (simp add: loaded_def slider_ok_def)
  have "slider_value (xy_slider (put_slider ''xy''
         (setValue (if slider_value (get_slider ''xy'' ?s) < maximum (get_slider ''xy'' ?s) - 1
                    then slider_value (get_slider ''xy'' ?s) + 1 else 0)
            (get_slider ''xy'' ?s)) s3)) = 0"
    using v m min0 by (simp add: get_slider_def put_slider_def setValue_def)
  then show ?thesis
    using s1 v run sh by auto
qed

text \<open>
  Claim C2 states that the brightness-slider callback changes only the additive term
  \<open>b\<close> of its view and the contrast-slider callback only the multiplicative term \<open>c\<close>.
  \<open>update_brightness\<close> stores \<open>value / 100\<close> in \<open>contrast\<close> and leaves \<open>brightness\<close>
  as it is; \<open>update_contrast\<close> stores \<open>value\<close> in \<open>brightness\<close> and leaves \<open>contrast\<close>
  as it is.
\<close>

theorem slider_callbacks_are_crossed:
  "update_brightness 150 XY (ImageViewer 300 200) =
     Returned ((ImageViewer 300 200)\<lparr>contrast := (contrast (ImageViewer 300 200))(XY := 1.5)\<rparr>) \<and>
   brightness (state_of (update_brightness 150 XY (ImageViewer 300 200))) XY = 0 \<and>
   contrast (state_of (update_brightness 150 XY (ImageViewer 300 200))) XY = 1.5 \<and>
   update_contrast 50 XY (ImageViewer 300 200) =
     Returned ((ImageViewer 300 200)\<lparr>brightness := (brightness (ImageViewer 300 200))(XY := 50)\<rparr>) \<and>
   brightness (state_of (update_contrast 50 XY (ImageViewer 300 200))) XY = 50 \<and>
   contrast (state_of (update_contrast 50 XY (ImageViewer 300 200))) XY = 1"
  by (simp add: update_brightness_def update_contrast_def update_all_images_unloaded ImageViewer_def)

text \<open>
  Claim C10 states that every click handler completes without raising, also before a
  volume is loaded. In the state after \<open>__init__\<close> each of the three handlers raises
  \<open>AttributeError\<close> on its first statement; the state is unchanged.
\<close>

theorem click_before_load_raises:
  "mousePressEvent XY (ImageViewer 300 200) (10, 10) = Raised AttributeError (ImageViewer 300 200) \<and>
   mousePressEvent XZ (ImageViewer 300 200) (10, 10) = Raised AttributeError (ImageViewer 300 200) \<and>
   mousePressEvent ZY (ImageViewer 300 200) (10, 10) = Raised AttributeError (ImageViewer 300 200)"
  by (simp add: mouse_press_event_xy_def mouse_press_event_xz_def mouse_press_event_zy_def
        ImageViewer_def)

section \<open>Clicks\<close>

lemma zoomed_44: "zoomed_pixmap 4 4 (2 / 5) = (2, 2)"
  by (simp add: zoomed_pixmap_def qsize_times_def pixmap_scaled_def qsize_scaled_def qRound_def py_int_def)

lemma example_loaded_facts:
  "loaded (ramp_volume 5 4 4) example_loaded"
  "xy_label example_loaded = \<lparr>lbl_width = 300, lbl_height = 200, lbl_pixmap = Some (2, 2)\<rparr>"
  "slider_value (xy_slider example_loaded) = 2"
  "slider_value (xz_slider example_loaded) = 1"
  "slider_value (zy_slider example_loaded) = 1"
  "current_crosshair example_loaded = None"
proof -
  let ?a = "ramp_volume 5 4 4"
  let ?s8 = "(ImageViewer 300 200)\<lparr>image_array := Some ?a,
      xy_slider := setValue ((int (shape0 ?a) - 1) div 2) (setMaximum (int (shape0 ?a) - 1) (xy_slider (ImageViewer 300 200))),
      xz_slider := setValue ((int (shape1 ?a) - 1) div 2) (setMaximum (int (shape1 ?a) - 1) (xz_slider (ImageViewer 300 200))),
      zy_slider := setValue ((int (shape2 ?a) - 1) div 2) (setMaximum (int (shape2 ?a) - 1) (zy_slider (ImageViewer 300 200))),
      current_crosshair := None\<rparr>"
  have eq: "load_image ?a (ImageViewer 300 200) = update_all_images ?s8"
    by (simp add: load_image_def Let_def)
  have ok: "loaded ?a ?s8"
    by (simp add: loaded_def slider_ok_def ramp_volume_def ImageViewer_def QSlider_def
          setValue_def setMaximum_def setRange_def)
  have ex: "example_loaded = rendered ?a ?s8"
    by (simp add: example_loaded_def eq update_all_images_rendered[OF ok])
  show "loaded ?a example_loaded"
    using ok relabelled_fields(12)[OF relabelled_rendered, of ?a ?a ?s8] by (simp add: ex)
  show "xy_label example_loaded = \<lparr>lbl_width = 300, lbl_height = 200, lbl_pixmap = Some (2, 2)\<rparr>"
    by (simp add: ex rendered_def ramp_volume_def ImageViewer_def setPixmap_def zoomed_44)
  show "slider_value (xy_slider example_loaded) = 2" "slider_value (xz_slider example_loaded) = 1"
    "slider_value (zy_slider example_loaded) = 1" "current_crosshair example_loaded = None"
    by (simp_all add: ex rendered_def ramp_volume_def ImageViewer_def QSlider_def
          setValue_def setMaximum_def setRange_def)
qed

lemma example_scaled: "scaled_size (xy_label example_loaded) (2, 2) = (200, 200)"
  "offset_x (xy_label example_loaded) (2, 2) = 50" "offset_y (xy_label example_loaded) (2, 2) = 0"
  by (simp_all add: offset_x_def offset_y_def scaled_size_def example_loaded_facts(2) lbl_size_def
        pixmap_scaled_def qsize_scaled_def)

text \<open>
  Claim C6. A click on the label of any of the three views at a point outside the
  centred scaled image changes nothing: the viewer after the handler is the viewer
  before it (every slice index, brightness, contrast, zoom and the crosshair), and with
  a volume loaded the handler returns without raising.
\<close>

theorem click_outside_image_ignored:
  assumes "lbl_pixmap (label_of p s) = Some pm" and "\<not> in_scaled_image (label_of p s) pm pos"
  shows "state_of (mousePressEvent p s pos) = s \<and>
         (image_array s \<noteq> None \<longrightarrow> mousePressEvent p s pos = Returned s)"
proof (cases p)
  case XY
  then show ?thesis using assms
    by (auto simp: mouse_press_event_xy_def in_scaled_image_def offset_x_def offset_y_def
          scaled_size_def Let_def split: option.splits)
next
  case XZ
  then show ?thesis using assms
    by (auto simp: mouse_press_event_xz_def in_scaled_image_def offset_x_def offset_y_def
          scaled_size_def Let_def split: option.splits)
next
  case ZY
  then show ?thesis using assms
    by (auto simp: mouse_press_event_zy_def in_scaled_image_def offset_x_def offset_y_def
          scaled_size_def Let_def split: option.splits)
qed

theorem click_outside_image_ignored_witness:
  "lbl_pixmap (label_of XY example_loaded) = Some (2, 2) \<and>
   \<not> in_scaled_image (label_of XY example_loaded) (2, 2) (10, 100) \<and>
   image_array example_loaded \<noteq> None \<and>
   mousePressEvent XY example_loaded (10, 100) = Returned example_loaded"
proof -
  have img: "image_array example_loaded \<noteq> None"
    using example_loaded_facts(1) by (simp add: loaded_def)
  have pm: "lbl_pixmap (label_of XY example_loaded) = Some (2, 2)"
    by (simp add: example_loaded_facts(2))
  have out: "\<not> in_scaled_image (label_of XY example_loaded) (2, 2) (10, 100)"
    by (simp add: in_scaled_image_def example_scaled)
  show ?thesis
    using click_outside_image_ignored[OF pm out] img pm out by simp
qed


lemma qsize_scaled_fits:
  assumes "0 < pw" "0 < ph" "0 < w" "0 < h"
  shows "fst (qsize_scaled (pw, ph) (w, h)) \<le> w \<and> snd (qsize_scaled (pw, ph) (w, h)) \<le> h"
proof (cases "h * pw div ph \<le> w")
  case True
  then show ?thesis using assms by (simp add: qsize_scaled_def Let_def)
next
  case False
  define q where "q = h * pw div ph"
  from False have q: "w + 1 \<le> q" by (simp add: q_def)
  have "ph * q + h * pw mod ph = h * pw"
    unfolding q_def by (rule mult_div_mod_eq)
  moreover have "0 \<le> h * pw mod ph"
    using assms(2) by simp
  ultimately have "ph * q \<le> h * pw" by linarith
  moreover have "ph * (w + 1) \<le> ph * q"
    using q assms(2) by (simp add: mult_left_mono)
  ultimately have "ph * (w + 1) \<le> h * pw" by linarith
  then have "w * ph \<le> h * pw"
    using assms(2) by (simp add: algebra_simps)
  then have "w * ph div pw \<le> h * pw div pw"
    using assms(1) by (rule zdiv_mono1)
  then have "w * ph div pw \<le> h"
    using assms(1) by simp
  with False show ?thesis using assms by (simp add: qsize_scaled_def Let_def)
qed

lemma scaled_size_fits:
  assumes "0 < fst (scaled_size l pm)"
  shows "fst (scaled_size l pm) \<le> lbl_width l \<and> 0 < snd (scaled_size l pm) \<and>
         snd (scaled_size l pm) \<le> lbl_height l"
proof -
  from assms have pos: "0 < fst pm" "0 < snd pm" "0 < lbl_width l" "0 < lbl_height l"
    by (auto simp: scaled_size_def pixmap_scaled_def lbl_size_def split: if_splits)
  have fit: "fst (qsize_scaled pm (lbl_width l, lbl_height l)) \<le> lbl_width l \<and>
             snd (qsize_scaled pm (lbl_width l, lbl_height l)) \<le> lbl_height l"
    using qsize_scaled_fits[OF pos] by simp
  show ?thesis
    using pos fit by (auto simp: scaled_size_def pixmap_scaled_def lbl_size_def Let_def)
qed

lemma in_scaled_image_rect:
  assumes "in_scaled_image l pm pos"
  shows "rect_contains l pos"
proof -
  from assms have cw: "0 < fst (scaled_size l pm)" and ch: "0 < snd (scaled_size l pm)"
    by (auto simp: in_scaled_image_def)
  from scaled_size_fits[OF cw]
  have "fst (scaled_size l pm) \<le> lbl_width l" "snd (scaled_size l pm) \<le> lbl_height l"
    by simp_all
  with assms show ?thesis
    unfolding in_scaled_image_def rect_contains_def offset_x_def offset_y_def by auto
qed

lemma mapped_index_range:
  assumes "0 \<le> d" and "d < C" and "C \<le> 2 ^ 31" and "0 < S" and "S < 2 ^ 53"
  shows "py_int (binary64 (binary64 (real_of_int d / real_of_int C) * binary64 (real S))) =
           mapped_index d C S"
    and "0 \<le> mapped_index d C S" and "mapped_index d C S \<le> int S - 1"
proof -
  let ?r = "binary64 (binary64 (real_of_int d / real_of_int C) * binary64 (real S))"
  note range = float_index_range[OF assms]
  have nonneg: "0 \<le> ?r" using range(1) by simp
  show "py_int ?r = mapped_index d C S"
    using nonneg by (simp add: py_int_def mapped_index_def)
  show "0 \<le> mapped_index d C S"
    using range(1) by (simp add: mapped_index_def)
  show "mapped_index d C S \<le> int S - 1"
    using range(2) by (simp add: mapped_index_def)
qed

lemma setValue_in_range:
  assumes "slider_ok n sl" and "0 \<le> v" and "v \<le> int n - 1"
  shows "setValue v sl = sl\<lparr>slider_value := v\<rparr>" and "slider_ok n (setValue v sl)"
  using assms by (auto simp: slider_ok_def setValue_def)


lemma click_xy_inside:
  assumes ld: "loaded a s" and ms: "machine_sizes a (xy_label s)"
    and pm: "lbl_pixmap (xy_label s) = Some pm"
    and ins: "in_scaled_image (xy_label s) pm (px, py)"
  shows "mouse_press_event_xy s (px, py) =
     Returned (rendered a (s\<lparr>
       xz_slider := (xz_slider s)\<lparr>slider_value := int (shape1 a) - 1 -
          mapped_index (py - offset_y (xy_label s) pm) (snd (scaled_size (xy_label s) pm)) (shape1 a)\<rparr>,
       zy_slider := (zy_slider s)\<lparr>slider_value := int (shape2 a) - 1 -
          mapped_index (px - offset_x (xy_label s) pm) (fst (scaled_size (xy_label s) pm)) (shape2 a)\<rparr>,
       current_crosshair := Some (px, py)\<rparr>))"
proof -
  let ?l = "xy_label s"
  let ?cw = "fst (scaled_size ?l pm)" and ?ch = "snd (scaled_size ?l pm)"
  let ?x = "px - offset_x ?l pm" and ?y = "py - offset_y ?l pm"
  let ?iy = "mapped_index ?y ?ch (shape1 a)" and ?ix = "mapped_index ?x ?cw (shape2 a)"
  from ld have img: "image_array s = Some a"
    and pos: "0 < shape0 a" "0 < shape1 a" "0 < shape2 a"
    and ok: "slider_ok (shape0 a) (xy_slider s)" "slider_ok (shape1 a) (xz_slider s)"
      "slider_ok (shape2 a) (zy_slider s)"
    by (simp_all add: loaded_def)
  from ins have b: "0 \<le> ?x" "?x < ?cw" "0 \<le> ?y" "?y < ?ch"
    by (auto simp: in_scaled_image_def)
  have rc: "rect_contains ?l (px, py)" by (rule in_scaled_image_rect[OF ins])
  have cw0: "0 < ?cw" using b(1,2) by linarith
  have cb: "?cw \<le> 2 ^ 31" "?ch \<le> 2 ^ 31"
    using scaled_size_fits[OF cw0] ms by (simp_all add: machine_sizes_def)
  have sb: "shape0 a < 2 ^ 53" "shape1 a < 2 ^ 53" "shape2 a < 2 ^ 53"
    using ms by (simp_all add: machine_sizes_def)
  note iy = mapped_index_range[OF b(3,4) cb(2) pos(2) sb(2)]
  note ix = mapped_index_range[OF b(1,2) cb(1) pos(3) sb(3)]
  have vy: "0 \<le> int (shape1 a) - 1 - ?iy" "int (shape1 a) - 1 - ?iy \<le> int (shape1 a) - 1"
    using iy(2,3) by simp_all
  have vx: "0 \<le> int (shape2 a) - 1 - ?ix" "int (shape2 a) - 1 - ?ix \<le> int (shape2 a) - 1"
    using ix(2,3) by simp_all
  note sy = setValue_in_range[OF ok(2) vy]
  note sx = setValue_in_range[OF ok(3) vx]
  let ?s3 = "s\<lparr>xz_slider := (xz_slider s)\<lparr>slider_value := int (shape1 a) - 1 - ?iy\<rparr>,
       zy_slider := (zy_slider s)\<lparr>slider_value := int (shape2 a) - 1 - ?ix\<rparr>,
       current_crosshair := Some (px, py)\<rparr>"
  have l3: "loaded a ?s3"
    using ld sy(2) sx(2) by (simp add: loaded_def sy(1) sx(1))
  have "mouse_press_event_xy s (px, py) = update_all_images ?s3"
    unfolding mouse_press_event_xy_def Let_def
    by (simp only: img pm rc b iy(1) ix(1) sy(1) sx(1) option.case option.distinct fst_conv snd_conv
          scaled_size_def[symmetric] offset_x_def[symmetric] offset_y_def[symmetric]
          diff_add_cancel simp_thms if_True)
       (simp add: sx(1))
  then show ?thesis
    by (simp only: update_all_images_rendered[OF l3])
qed


lemma click_xz_inside:
  assumes ld: "loaded a s" and ms: "machine_sizes a (xz_label s)"
    and pm: "lbl_pixmap (xz_label s) = Some pm"
    and ins: "in_scaled_image (xz_label s) pm (px, py)"
  shows "mouse_press_event_xz s (px, py) =
     Returned (rendered a (s\<lparr>
       xy_slider := (xy_slider s)\<lparr>slider_value := int (shape0 a) - 1 -
          mapped_index (py - offset_y (xz_label s) pm) (snd (scaled_size (xz_label s) pm)) (shape0 a)\<rparr>,
       zy_slider := (zy_slider s)\<lparr>slider_value := int (shape2 a) - 1 -
          mapped_index (px - offset_x (xz_label s) pm) (fst (scaled_size (xz_label s) pm)) (shape2 a)\<rparr>,
       current_crosshair := Some (px, py)\<rparr>))"
proof -
  let ?l = "xz_label s"
  let ?cw = "fst (scaled_size ?l pm)" and ?ch = "snd (scaled_size ?l pm)"
  let ?x = "px - offset_x ?l pm" and ?y = "py - offset_y ?l pm"
  let ?iy = "mapped_index ?y ?ch (shape0 a)" and ?ix = "mapped_index ?x ?cw (shape2 a)"
  from ld have img: "image_array s = Some a"
    and pos: "0 < shape0 a" "0 < shape1 a" "0 < shape2 a"
    and ok: "slider_ok (shape0 a) (xy_slider s)" "slider_ok (shape1 a) (xz_slider s)"
      "slider_ok (shape2 a) (zy_slider s)"
    by (simp_all add: loaded_def)
  from ins have b: "0 \<le> ?x" "?x < ?cw" "0 \<le> ?y" "?y < ?ch"
    by (auto simp: in_scaled_image_def)
  have rc: "rect_contains ?l (px, py)" by (rule in_scaled_image_rect[OF ins])
  have cw0: "0 < ?cw" using b(1,2) by linarith
  have cb: "?cw \<le> 2 ^ 31" "?ch \<le> 2 ^ 31"
    using scaled_size_fits[OF cw0] ms by (simp_all add: machine_sizes_def)
  have sb: "shape0 a < 2 ^ 53" "shape1 a < 2 ^ 53" "shape2 a < 2 ^ 53"
    using ms by (simp_all add: machine_sizes_def)
  note iy = mapped_index_range[OF b(3,4) cb(2) pos(1) sb(1)]
  note ix = mapped_index_range[OF b(1,2) cb(1) pos(3) sb(3)]
  have vy: "0 \<le> int (shape0 a) - 1 - ?iy" "int (shape0 a) - 1 - ?iy \<le> int (shape0 a) - 1"
    using iy(2,3) by simp_all
  have vx: "0 \<le> int (shape2 a) - 1 - ?ix" "int (shape2 a) - 1 - ?ix \<le> int (shape2 a) - 1"
    using ix(2,3) by simp_all
  note sy = setValue_in_range[OF ok(1) vy]
  note sx = setValue_in_range[OF ok(3) vx]
  let ?s3 = "s\<lparr>xy_slider := (xy_slider s)\<lparr>slider_value := int (shape0 a) - 1 - ?iy\<rparr>,
       zy_slider := (zy_slider s)\<lparr>slider_value := int (shape2 a) - 1 - ?ix\<rparr>,
       current_crosshair := Some (px, py)\<rparr>"
  have l3: "loaded a ?s3"
    using ld sy(2) sx(2) by (simp add: loaded_def sy(1) sx(1))
  have "mouse_press_event_xz s (px, py) = update_all_images ?s3"
    unfolding mouse_press_event_xz_def Let_def
    by (simp only: img pm rc b iy(1) ix(1) sy(1) sx(1) option.case option.distinct fst_conv snd_conv
          scaled_size_def[symmetric] offset_x_def[symmetric] offset_y_def[symmetric]
          diff_add_cancel simp_thms if_True)
       (simp add: sx(1))
  then show ?thesis
    by (simp only: update_all_images_rendered[OF l3])
qed

lemma click_zy_inside:
  assumes ld: "loaded a s" and ms: "machine_sizes a (zy_label s)"
    and pm: "lbl_pixmap (zy_label s) = Some pm"
    and ins: "in_scaled_image (zy_label s) pm (px, py)"
  shows "mouse_press_event_zy s (px, py) =
     Returned (rendered a (s\<lparr>
       xy_slider := (xy_slider s)\<lparr>slider_value := int (shape0 a) - 1 -
          mapped_index (py - offset_y (zy_label s) pm) (snd (scaled_size (zy_label s) pm)) (shape0 a)\<rparr>,
       xz_slider := (xz_slider s)\<lparr>slider_value := int (shape1 a) - 1 -
          mapped_index (px - offset_x (zy_label s) pm) (fst (scaled_size (zy_label s) pm)) (shape1 a)\<rparr>,
       current_crosshair := Some (px, py)\<rparr>))"
proof -
  let ?l = "zy_label s"
  let ?cw = "fst (scaled_size ?l pm)" and ?ch = "snd (scaled_size ?l pm)"
  let ?x = "px - offset_x ?l pm" and ?y = "py - offset_y ?l pm"
  let ?iy = "mapped_index ?y ?ch (shape0 a)" and ?ix = "mapped_index ?x ?cw (shape1 a)"
  from ld have img: "image_array s = Some a"
    and pos: "0 < shape0 a" "0 < shape1 a" "0 < shape2 a"
    and ok: "slider_ok (shape0 a) (xy_slider s)" "slider_ok (shape1 a) (xz_slider s)"
      "slider_ok (shape2 a) (zy_slider s)"
    by (simp_all add: loaded_def)
  from ins have b: "0 \<le> ?x" "?x < ?cw" "0 \<le> ?y" "?y < ?ch"
    by (auto simp: in_scaled_image_def)
  have rc: "rect_contains ?l (px, py)" by (rule in_scaled_image_rect[OF ins])
  have cw0: "0 < ?cw" using b(1,2) by linarith
  have cb: "?cw \<le> 2 ^ 31" "?ch \<le> 2 ^ 31"
    using scaled_size_fits[OF cw0] ms by (simp_all add: machine_sizes_def)
  have sb: "shape0 a < 2 ^ 53" "shape1 a < 2 ^ 53" "shape2 a < 2 ^ 53"
    using ms by (simp_all add: machine_sizes_def)
  note iy = mapped_index_range[OF b(3,4) cb(2) pos(1) sb(1)]
  note ix = mapped_index_range[OF b(1,2) cb(1) pos(2) sb(2)]
  have vy: "0 \<le> int (shape0 a) - 1 - ?iy" "int (shape0 a) - 1 - ?iy \<le> int (shape0 a) - 1"
    using iy(2,3) by simp_all
  have vx: "0 \<le> int (shape1 a) - 1 - ?ix" "int (shape1 a) - 1 - ?ix \<le> int (shape1 a) - 1"
    using ix(2,3) by simp_all
  note sy = setValue_in_range[OF ok(1) vy]
  note sx = setValue_in_range[OF ok(2) vx]
  let ?s3 = "s\<lparr>xy_slider := (xy_slider s)\<lparr>slider_value := int (shape0 a) - 1 - ?iy\<rparr>,
       xz_slider := (xz_slider s)\<lparr>slider_value := int (shape1 a) - 1 - ?ix\<rparr>,
       current_crosshair := Some (px, py)\<rparr>"
  have l3: "loaded a ?s3"
    using ld sy(2) sx(2) by (simp add: loaded_def sy(1) sx(1))
  have "mouse_press_event_zy s (px, py) = update_all_images ?s3"
    unfolding mouse_press_event_zy_def Let_def
    by (simp only: img pm rc b iy(1) ix(1) sy(1) sx(1) option.case option.distinct fst_conv snd_conv
          scaled_size_def[symmetric] offset_x_def[symmetric] offset_y_def[symmetric]
          diff_add_cancel simp_thms if_True)
       (simp add: sx(1))
  then show ?thesis
    by (simp only: update_all_images_rendered[OF l3])
qed

text \<open>
  Claim C5, as amended. With a volume loaded, a click at \<open>(px, py)\<close> inside the centred
  scaled image of a view is handled without raising; the in-slice indices are the
  floors of \<open>(px - offset_x) / Cw * Sw\<close> and \<open>(py - offset_y) / Ch * Sh\<close> as Python
  evaluates them in doubles (the quotient rounded, then the product rounded), and the
  slice sliders of the other two views are set to \<open>max_extent - mapped_index\<close>: the
  axial view sets the sliders of axes 1 and 2, the coronal view those of axes 0 and 2,
  the sagittal view those of axes 0 and 1.
\<close>

theorem click_inside_sets_cross_sliders:
  assumes "loaded a s" and "machine_sizes a (label_of p s)"
    and "lbl_pixmap (label_of p s) = Some pm"
    and "in_scaled_image (label_of p s) pm (px, py)"
  shows "\<exists>s'. mousePressEvent p s (px, py) = Returned s' \<and>
     (p = XY \<longrightarrow>
        slider_value (xz_slider s') = (int (shape1 a) - 1) -
          mapped_index (py - offset_y (xy_label s) pm) (snd (scaled_size (xy_label s) pm)) (shape1 a) \<and>
        slider_value (zy_slider s') = (int (shape2 a) - 1) -
          mapped_index (px - offset_x (xy_label s) pm) (fst (scaled_size (xy_label s) pm)) (shape2 a)) \<and>
     (p = XZ \<longrightarrow>
        slider_value (xy_slider s') = (int (shape0 a) - 1) -
          mapped_index (py - offset_y (xz_label s) pm) (snd (scaled_size (xz_label s) pm)) (shape0 a) \<and>
        slider_value (zy_slider s') = (int (shape2 a) - 1) -
          mapped_index (px - offset_x (xz_label s) pm) (fst (scaled_size (xz_label s) pm)) (shape2 a)) \<and>
     (p = ZY \<longrightarrow>
        slider_value (xy_slider s') = (int (shape0 a) - 1) -
          mapped_index (py - offset_y (zy_label s) pm) (snd (scaled_size (zy_label s) pm)) (shape0 a) \<and>
        slider_value (xz_slider s') = (int (shape1 a) - 1) -
          mapped_index (px - offset_x (zy_label s) pm) (fst (scaled_size (zy_label s) pm)) (shape1 a))"
proof (cases p)
  case XY
  with assms show ?thesis
    by (simp add: click_xy_inside rendered_def)
next
  case XZ
  with assms show ?thesis
    by (simp add: click_xz_inside rendered_def)
next
  case ZY
  with assms show ?thesis
    by (simp add: click_zy_inside rendered_def)
qed

lemma mapped_index_examples:
  "mapped_index 120 200 4 = 2" "mapped_index 10 200 4 = 0"
  "mapped_index 58 200 100 = 28" "mapped_index 10 200 100 = 5"
  by code_simp+

theorem click_inside_sets_cross_sliders_witness:
  "loaded (ramp_volume 5 4 4) example_loaded \<and>
   machine_sizes (ramp_volume 5 4 4) (label_of XY example_loaded) \<and>
   lbl_pixmap (label_of XY example_loaded) = Some (2, 2) \<and>
   in_scaled_image (label_of XY example_loaded) (2, 2) (60, 120) \<and>
   (\<exists>s'. mousePressEvent XY example_loaded (60, 120) = Returned s' \<and>
      slider_value (xz_slider s') = 1 \<and> slider_value (zy_slider s') = 3)"
proof -
  have pm: "lbl_pixmap (label_of XY example_loaded) = Some (2, 2)"
    by (simp add: example_loaded_facts(2))
  have ms: "machine_sizes (ramp_volume 5 4 4) (label_of XY example_loaded)"
    by (simp add: machine_sizes_def example_loaded_facts(2) ramp_volume_def)
  have ins: "in_scaled_image (label_of XY example_loaded) (2, 2) (60, 120)"
    by (simp add: in_scaled_image_def example_scaled)
  show ?thesis
    using click_inside_sets_cross_sliders[OF example_loaded_facts(1) ms pm ins] pm ins ms
      example_loaded_facts(1)
    by (simp add: example_scaled ramp_volume_def mapped_index_examples)
qed

text \<open>
  A volume of shape \<open>(100, 100, 100)\<close> in the same viewer: each view shows a pixmap of
  40 by 40, scaled to 200 by 200 at offset 50 in the label. A click at \<open>(108, 10)\<close> in
  the axial view is 58 pixels from the left edge of the image. In doubles
  \<open>58 / 200 * 100\<close> is just below 29, so the sagittal slider is set to \<open>99 - 28 = 71\<close>;
  with the exact quotient it would be \<open>99 - 29 = 70\<close>.
\<close>

lemma zoomed_100: "zoomed_pixmap 100 100 (2 / 5) = (40, 40)"
  by (simp add: zoomed_pixmap_def qsize_times_def pixmap_scaled_def qsize_scaled_def qRound_def py_int_def)

lemma example_loaded_100_facts:
  "loaded (ramp_volume 100 100 100) example_loaded_100"
  "xy_label example_loaded_100 = \<lparr>lbl_width = 300, lbl_height = 200, lbl_pixmap = Some (40, 40)\<rparr>"
proof -
  let ?a = "ramp_volume 100 100 100"
  let ?s8 = "(ImageViewer 300 200)\<lparr>image_array := Some ?a,
      xy_slider := setValue ((int (shape0 ?a) - 1) div 2) (setMaximum (int (shape0 ?a) - 1) (xy_slider (ImageViewer 300 200))),
      xz_slider := setValue ((int (shape1 ?a) - 1) div 2) (setMaximum (int (shape1 ?a) - 1) (xz_slider (ImageViewer 300 200))),
      zy_slider := setValue ((int (shape2 ?a) - 1) div 2) (setMaximum (int (shape2 ?a) - 1) (zy_slider (ImageViewer 300 200))),
      current_crosshair := None\<rparr>"
  have eq: "load_image ?a (ImageViewer 300 200) = update_all_images ?s8"
    by (simp add: load_image_def Let_def)
  have ok: "loaded ?a ?s8"
    by (simp add: loaded_def slider_ok_def ramp_volume_def ImageViewer_def QSlider_def
          setValue_def setMaximum_def setRange_def)
  have ex: "example_loaded_100 = rendered ?a ?s8"
    by (simp add: example_loaded_100_def eq update_all_images_rendered[OF ok])
  show "loaded ?a example_loaded_100"
    using ok relabelled_fields(12)[OF relabelled_rendered, of ?a ?a ?s8] by (simp add: ex)
  show "xy_label example_loaded_100 = \<lparr>lbl_width = 300, lbl_height = 200, lbl_pixmap = Some (40, 40)\<rparr>"
    by (simp add: ex rendered_def ramp_volume_def ImageViewer_def setPixmap_def zoomed_100)
qed

lemma example_scaled_100: "scaled_size (xy_label example_loaded_100) (40, 40) = (200, 200)"
  "offset_x (xy_label example_loaded_100) (40, 40) = 50"
  "offset_y (xy_label example_loaded_100) (40, 40) = 0"
  by (simp_all add: offset_x_def offset_y_def scaled_size_def example_loaded_100_facts(2) lbl_size_def
        pixmap_scaled_def qsize_scaled_def)

theorem click_index_rounds_below_exact:
  "in_scaled_image (xy_label example_loaded_100) (40, 40) (108, 10) \<and>
   offset_x (xy_label example_loaded_100) (40, 40) = 50 \<and>
   fst (scaled_size (xy_label example_loaded_100) (40, 40)) = 200 \<and>
   slider_value (zy_slider (state_of (mousePressEvent XY example_loaded_100 (108, 10)))) = 71 \<and>
   int (shape2 (ramp_volume 100 100 100)) - 1 -
     \<lfloor>real_of_int (108 - 50) / real_of_int 200 * real (shape2 (ramp_volume 100 100 100))\<rfloor> = 70"
proof -
  have pm: "lbl_pixmap (xy_label example_loaded_100) = Some (40, 40)"
    by (simp add: example_loaded_100_facts(2))
  have ms: "machine_sizes (ramp_volume 100 100 100) (xy_label example_loaded_100)"
    by (simp add: machine_sizes_def example_loaded_100_facts(2) ramp_volume_def)
  have ins: "in_scaled_image (xy_label example_loaded_100) (40, 40) (108, 10)"
    by (simp add: in_scaled_image_def example_scaled_100)
  have "slider_value (zy_slider (state_of (mousePressEvent XY example_loaded_100 (108, 10)))) = 71"
    by (simp add: click_xy_inside[OF example_loaded_100_facts(1) ms pm ins] rendered_def
          example_scaled_100 ramp_volume_def mapped_index_examples)
  then show ?thesis
    using ins by (simp add: example_scaled_100 ramp_volume_def)
qed

end
